theory Spec2Isabelle
  imports Main "HOL-Library.Multiset"
begin

section \<open>Cluster-wide GPU configuration analyzer\<close>

text \<open>
  A shallow embedding of \<^verbatim>\<open>task1/scripts/cluster_wide_gpu_debug.py\<close>: the
  dataclasses as records, the string tests of the config inspection as list functions,
  every \<^verbatim>\<open>subprocess.run\<close> as a call to an environment that answers from the
  history of calls, and every \<^verbatim>\<open>try\<close>/\<^verbatim>\<open>except\<close> as a case
  distinction on the answer.
\<close>

subsection \<open>Python strings\<close>

text \<open>
  Texts are lists of characters, and a character is a code point from 0 to 255: the
  texts of the model are the Python strings whose code points are all below 256.
  \<^verbatim>\<open>str.lower\<close> is modelled on the letters \<^verbatim>\<open>A\<close> to \<^verbatim>\<open>Z\<close>; every
  other character is left as it is. The markers searched for consist of ASCII letters
  only, and no other character of this range is lowered to an ASCII letter, so this
  decides the marker tests as Python does.
\<close>

definition lower_char :: "char \<Rightarrow> char" where
  "lower_char c =
     (case map_of (zip ''ABCDEFGHIJKLMNOPQRSTUVWXYZ'' ''abcdefghijklmnopqrstuvwxyz'') c of
        Some d \<Rightarrow> d
      | None \<Rightarrow> c)"

definition py_lower :: "string \<Rightarrow> string" where
  "py_lower s = map lower_char s"

fun starts_with :: "string \<Rightarrow> string \<Rightarrow> bool" where
  "starts_with [] s = True"
| "starts_with (p # ps) [] = False"
| "starts_with (p # ps) (c # cs) = (p = c \<and> starts_with ps cs)"

text \<open>\<^verbatim>\<open>needle in hay\<close> for two strings: the substring test.\<close>

fun py_in :: "string \<Rightarrow> string \<Rightarrow> bool" where
  "py_in needle [] = (needle = [])"
| "py_in needle (c # cs) = (starts_with needle (c # cs) \<or> py_in needle cs)"

text \<open>\<^verbatim>\<open>s.split(sep)\<close> for a separator of one character.\<close>

fun py_split :: "char \<Rightarrow> string \<Rightarrow> string list" where
  "py_split sep [] = [[]]"
| "py_split sep (c # cs) =
     (if c = sep then [] # py_split sep cs
      else (case py_split sep cs of
              [] \<Rightarrow> [[c]]
            | l # ls \<Rightarrow> (c # l) # ls))"

text \<open>\<^verbatim>\<open>s.split(sep, 1)\<close>: at most one split, at the first separator.\<close>

definition py_split1 :: "char \<Rightarrow> string \<Rightarrow> string list" where
  "py_split1 sep s =
     (if sep \<in> set s
      then [takeWhile (\<lambda>c. c \<noteq> sep) s, tl (dropWhile (\<lambda>c. c \<noteq> sep) s)]
      else [s])"

text \<open>
  The characters that \<^verbatim>\<open>str.strip()\<close> removes are those of
  \<^verbatim>\<open>str.isspace\<close>. Below 256 these are the codes 9 to 13, 28 to 32, 133 (next
  line) and 160 (no-break space).
\<close>

definition is_space :: "char \<Rightarrow> bool" where
  "is_space c = (c \<in> set [CHR 0x09, CHR 0x0A, CHR 0x0B, CHR 0x0C, CHR 0x0D,
                            CHR 0x1C, CHR 0x1D, CHR 0x1E, CHR 0x1F, CHR '' '',
                            CHR 0x85, CHR 0xA0])"

definition strip_where :: "(char \<Rightarrow> bool) \<Rightarrow> string \<Rightarrow> string" where
  "strip_where p s = rev (dropWhile p (rev (dropWhile p s)))"

text \<open>\<^verbatim>\<open>s.strip()\<close> and \<^verbatim>\<open>s.strip(chars)\<close>.\<close>

definition py_strip :: "string \<Rightarrow> string" where
  "py_strip s = strip_where is_space s"

definition py_strip_chars :: "string \<Rightarrow> string \<Rightarrow> string" where
  "py_strip_chars chars s = strip_where (\<lambda>c. c \<in> set chars) s"

text \<open>\<^verbatim>\<open>s.replace('.', '-')\<close>: every occurrence is replaced.\<close>

definition replace_char :: "char \<Rightarrow> char \<Rightarrow> string \<Rightarrow> string" where
  "replace_char old new s = map (\<lambda>c. if c = old then new else c) s"

text \<open>\<^verbatim>\<open>s[-n:]\<close>: the last \<open>n\<close> characters, the whole text when it is shorter.\<close>

definition py_last_n :: "nat \<Rightarrow> string \<Rightarrow> string" where
  "py_last_n n s = drop (length s - n) s"

subsection \<open>The dataclasses\<close>

record NodeInfo =
  name :: string
  roles :: "string list"
  status :: string
  gpu_pods :: int
  has_gpu_resources :: bool

text \<open>
  \<^verbatim>\<open>ContainerdConfig.node_name\<close> is the field \<open>config_node_name\<close>: the name
  \<open>node_name\<close> is kept for \<^verbatim>\<open>NodeGPUStatus\<close>.
\<close>

record ContainerdConfig =
  config_node_name :: string
  config_path :: string
  exists :: bool
  nvidia_runtime_configured :: bool
  config_content :: string
  binary_name :: string
  binary_exists :: bool
  binary_path_used :: string
  error :: "string option"

record NodeGPUStatus =
  node_name :: string
  containerd_configs :: "ContainerdConfig list"
  gpu_failure_symptoms :: "string option"
  debug_pod_deployed :: bool
  execution_error :: "string option"

subsection \<open>The identity of a node's inspection pod\<close>

text \<open>
  The pod name is computed in three places, each with its own copy of the expression
  \<^verbatim>\<open>f"{self.debug_pod_prefix}-{node_name.replace('.', '-')}"\<close>;
  \<^verbatim>\<open>debug_pod_prefix\<close> is set once, in the constructor.
\<close>

definition debug_pod_prefix :: string where
  "debug_pod_prefix = ''gpu-debug''"

text \<open>In \<^verbatim>\<open>create_debug_pod_spec\<close>, in \<^verbatim>\<open>deploy_debug_pod\<close> and in
  \<^verbatim>\<open>cleanup_debug_pods\<close>.\<close>

definition spec_pod_name :: "string \<Rightarrow> string" where
  "spec_pod_name nodename = debug_pod_prefix @ ''-'' @ replace_char CHR ''.'' CHR ''-'' nodename"

definition deploy_pod_name :: "string \<Rightarrow> string" where
  "deploy_pod_name nodename = debug_pod_prefix @ ''-'' @ replace_char CHR ''.'' CHR ''-'' nodename"

definition cleanup_pod_name :: "NodeInfo \<Rightarrow> string" where
  "cleanup_pod_name node = debug_pod_prefix @ ''-'' @ replace_char CHR ''.'' CHR ''-'' (name node)"

text \<open>
  The pod specification of \<^verbatim>\<open>create_debug_pod_spec\<close>: the entries that depend on
  the node or the analyzer; the rest of the dictionary is constant (a privileged
  container sharing the host's namespaces, with four read-only host mounts).
\<close>

record pod_spec =
  metadata_name :: string
  metadata_label_node :: string
  spec_nodeName :: string

definition create_debug_pod_spec :: "string \<Rightarrow> pod_spec" where
  "create_debug_pod_spec nodename =
     \<lparr>metadata_name = spec_pod_name nodename,
      metadata_label_node = nodename,
      spec_nodeName = nodename\<rparr>"

subsection \<open>Config inspection: the marker test and the binary name\<close>

text \<open>
  The remote path (\<^verbatim>\<open>get_containerd_config_from_node\<close>) lowers the text before
  it looks for the two markers; the local path (\<^verbatim>\<open>check_local_node_config\<close>)
  looks in the text as it is.
\<close>

definition remote_nvidia_configured :: "string \<Rightarrow> bool" where
  "remote_nvidia_configured content =
     (let content_lower = py_lower content
      in py_in ''nvidia'' content_lower \<and> py_in ''runc'' content_lower)"

definition local_nvidia_configured :: "string \<Rightarrow> bool" where
  "local_nvidia_configured content = (py_in ''nvidia'' content \<and> py_in ''runc'' content)"

text \<open>
  The test of a line and the value taken from it, as both extraction loops write them:
  \<^verbatim>\<open>'BinaryName' in line and '=' in line\<close>, then
  \<^verbatim>\<open>parts[1].strip().strip('"').strip("'").strip()\<close> of
  \<^verbatim>\<open>parts = line.split('=', 1)\<close>.
\<close>

definition is_binary_name_line :: "string \<Rightarrow> bool" where
  "is_binary_name_line line = (py_in ''BinaryName'' line \<and> py_in ''='' line)"

definition strip_binary_path :: "string \<Rightarrow> string" where
  "strip_binary_path rhs =
     py_strip (py_strip_chars [CHR 0x27] (py_strip_chars [CHR 0x22] (py_strip rhs)))"

subsection \<open>The environment: kubectl and the trace of calls\<close>

text \<open>
  \<open>exc_str\<close> is \<^verbatim>\<open>str(e)\<close>. Only subclasses of \<^verbatim>\<open>Exception\<close> are
  values of \<open>py_exception\<close>; the caller's interrupt is the type \<open>interrupt\<close>, which no
  \<^verbatim>\<open>except Exception\<close> catches.
\<close>

datatype py_exception =
    TimeoutExpired string
  | TypeError string
  | UnicodeEncodeError string
  | OtherException string

fun exc_str :: "py_exception \<Rightarrow> string" where
  "exc_str (TimeoutExpired m) = m"
| "exc_str (TypeError m) = m"
| "exc_str (UnicodeEncodeError m) = m"
| "exc_str (OtherException m) = m"

datatype interrupt = KeyboardInterrupt

text \<open>
  What \<^verbatim>\<open>subprocess.run\<close> gives: a completed process (return code, stdout,
  stderr) or an exception. The commands are the argument lists the source builds; the
  namespace is the analyzer's and is left out.
\<close>

datatype proc_result = Completed int string string | Raised py_exception

datatype kubectl_cmd =
    GetNodes
  | GetPod string
  | ApplyPod pod_spec
  | GetPhase string
  | GetReady string
  | DescribePod string
  | ExecTestF string string
  | ExecCat string string
  | ExecDetection string
  | DeletePod string

datatype event = Call kubectl_cmd proc_result | Sleep nat

type_synonym trace = "event list"

text \<open>
  The environment answers a command from the history of events so far, so the same
  command may be answered differently each time, and every call is answered: it
  completes or it raises (a \<^verbatim>\<open>timeout=\<close> argument shows as the exception
  \<^verbatim>\<open>TimeoutExpired\<close>). \<open>nodes_of_json\<close> stands for \<^verbatim>\<open>json.loads\<close> and
  the loop of \<^verbatim>\<open>get_cluster_nodes\<close> that builds the \<^verbatim>\<open>NodeInfo\<close> values,
  with the count of GPU pods it asks for per node (\<open>Inl\<close> when it raises).

  Of what the program prints, the model has the first statement of the worker,
  \<^verbatim>\<open>print(f"... Analyzing node: {node.name}")\<close>, whose text starts with the
  character U+1F50D: it stands outside every handler of the worker, so an exception of
  \<^verbatim>\<open>print\<close> (the stream cannot encode the text, or is closed) leaves the worker.
  A message is given by its format and its argument, and \<open>stdout\<close> says, from the
  history, whether printing it raises. Every other \<^verbatim>\<open>print\<close> is taken to succeed,
  as is the writing of the temporary file that holds the pod specification; neither is
  part of the model.
\<close>

datatype message = AnalyzingNode string

record env =
  kubectl :: "trace \<Rightarrow> kubectl_cmd \<Rightarrow> proc_result"
  nodes_of_json :: "string \<Rightarrow> py_exception + NodeInfo list"
  stdout :: "trace \<Rightarrow> message \<Rightarrow> py_exception option"

definition subprocess_run :: "env \<Rightarrow> kubectl_cmd \<Rightarrow> trace \<Rightarrow> proc_result \<times> trace" where
  "subprocess_run e c tr = (kubectl e tr c, tr @ [Call c (kubectl e tr c)])"

definition time_sleep :: "nat \<Rightarrow> trace \<Rightarrow> trace" where
  "time_sleep n tr = tr @ [Sleep n]"

text \<open>\<^verbatim>\<open>print\<close>: \<open>None\<close> when the message is written, the exception otherwise.\<close>

definition py_print :: "env \<Rightarrow> message \<Rightarrow> trace \<Rightarrow> py_exception option" where
  "py_print e m tr = stdout e tr m"

subsection \<open>Provisioning: \<^verbatim>\<open>deploy_debug_pod\<close>\<close>

text \<open>
  The loop \<^verbatim>\<open>for attempt in range(60)\<close>, with the number of attempts left as its
  argument: \<open>Inr True\<close> is the \<^verbatim>\<open>return True, pod_name\<close> inside the loop,
  \<open>Inr False\<close> the end of the loop, \<open>Inl\<close> an exception of a call.
\<close>

fun poll_ready :: "env \<Rightarrow> string \<Rightarrow> nat \<Rightarrow> trace \<Rightarrow> (py_exception + bool) \<times> trace" where
  "poll_ready e pod 0 tr = (Inr False, tr)"
| "poll_ready e pod (Suc n) tr =
     (case subprocess_run e (GetPhase pod) tr of
        (Raised x, tr1) \<Rightarrow> (Inl x, tr1)
      | (Completed rc out err, tr1) \<Rightarrow>
          if out = ''Running'' then
            (case subprocess_run e (GetReady pod) tr1 of
               (Raised x, tr2) \<Rightarrow> (Inl x, tr2)
             | (Completed rc2 out2 err2, tr2) \<Rightarrow>
                 if out2 = ''true'' then (Inr True, tr2)
                 else poll_ready e pod n (time_sleep 1 tr2))
          else poll_ready e pod n (time_sleep 1 tr1))"

text \<open>The readiness wait: the loop, then \<^verbatim>\<open>kubectl describe\<close> and the failure.\<close>

definition await_ready :: "env \<Rightarrow> string \<Rightarrow> trace \<Rightarrow> (py_exception + bool \<times> string) \<times> trace" where
  "await_ready e pod tr =
     (case poll_ready e pod 60 tr of
        (Inl x, tr1) \<Rightarrow> (Inl x, tr1)
      | (Inr True, tr1) \<Rightarrow> (Inr (True, pod), tr1)
      | (Inr False, tr1) \<Rightarrow>
          (case subprocess_run e (DescribePod pod) tr1 of
             (Raised x, tr2) \<Rightarrow> (Inl x, tr2)
           | (Completed rc out err, tr2) \<Rightarrow>
               (Inr (False, ''Pod failed to start within timeout. Details: '' @ py_last_n 500 out),
                tr2)))"

definition deploy_debug_pod :: "env \<Rightarrow> string \<Rightarrow> trace \<Rightarrow> (bool \<times> string) \<times> trace" where
  "deploy_debug_pod e nodename tr =
     (let pod_name = deploy_pod_name nodename in
      case subprocess_run e (GetPod pod_name) tr of
        (Raised x, tr1) \<Rightarrow> ((False, ''Exception deploying pod: '' @ exc_str x), tr1)
      | (Completed rc out err, tr1) \<Rightarrow>
          if rc = 0 then ((True, pod_name), tr1)
          else
            (case subprocess_run e (ApplyPod (create_debug_pod_spec nodename)) tr1 of
               (Raised x, tr2) \<Rightarrow> ((False, ''Exception deploying pod: '' @ exc_str x), tr2)
             | (Completed rc2 out2 err2, tr2) \<Rightarrow>
                 if rc2 \<noteq> 0 then ((False, ''Failed to create pod: '' @ err2), tr2)
                 else
                   (case await_ready e pod_name tr2 of
                      (Inl x, tr3) \<Rightarrow> ((False, ''Exception deploying pod: '' @ exc_str x), tr3)
                    | (Inr r, tr3) \<Rightarrow> (r, tr3))))"

subsection \<open>Config discovery: \<^verbatim>\<open>get_containerd_config_from_node\<close>\<close>

record binary_info =
  info_binary_name :: string
  info_binary_exists :: bool
  info_binary_path :: string
  info_error :: "string option"

text \<open>
  The loop of \<^verbatim>\<open>_extract_and_verify_binary\<close> over the lines: the first line
  that passes the test ends it (\<^verbatim>\<open>break\<close>, or the exception of the call).
\<close>

fun extract_lines :: "env \<Rightarrow> string \<Rightarrow> string list \<Rightarrow> trace \<Rightarrow> binary_info \<times> trace" where
  "extract_lines e pod [] tr =
     (\<lparr>info_binary_name = '''', info_binary_exists = False, info_binary_path = '''',
       info_error = None\<rparr>, tr)"
| "extract_lines e pod (line # rest) tr =
     (if is_binary_name_line line then
        (let parts = py_split1 CHR ''='' line in
         if length parts = 2 then
           (let binary_path = strip_binary_path (parts ! 1) in
            case subprocess_run e (ExecTestF pod (''/host'' @ binary_path)) tr of
              (Raised x, tr1) \<Rightarrow>
                (\<lparr>info_binary_name = binary_path, info_binary_exists = False,
                  info_binary_path = '''', info_error = Some (exc_str x)\<rparr>, tr1)
            | (Completed rc out err, tr1) \<Rightarrow>
                (\<lparr>info_binary_name = binary_path, info_binary_exists = (rc = 0),
                  info_binary_path = binary_path, info_error = None\<rparr>, tr1))
         else extract_lines e pod rest tr)
      else extract_lines e pod rest tr)"

definition extract_and_verify_binary ::
  "env \<Rightarrow> string \<Rightarrow> string \<Rightarrow> trace \<Rightarrow> binary_info \<times> trace" where
  "extract_and_verify_binary e content pod tr = extract_lines e pod (py_split CHR 0x0A content) tr"

definition remote_config_paths :: "string list" where
  "remote_config_paths =
     [''/host/var/lib/k8s-containerd/k8s-containerd/etc/containerd/config.toml'',
      ''/host/etc/containerd/config.toml'',
      ''/host/var/lib/rancher/k3s/agent/etc/containerd/config.toml'',
      ''/host/etc/k3s/containerd/config.toml'',
      ''/host/var/lib/containerd/config.toml'']"

definition exception_config :: "string \<Rightarrow> string \<Rightarrow> py_exception \<Rightarrow> ContainerdConfig" where
  "exception_config nodename path x =
     \<lparr>config_node_name = nodename, config_path = path, exists = False,
      nvidia_runtime_configured = False, config_content = '''', binary_name = '''',
      binary_exists = False, binary_path_used = '''',
      error = Some (''Exception: '' @ exc_str x)\<rparr>"

text \<open>One round of the loop over the candidate paths: the record it appends.\<close>

definition inspect_config_path ::
  "env \<Rightarrow> string \<Rightarrow> string \<Rightarrow> string \<Rightarrow> trace \<Rightarrow> ContainerdConfig \<times> trace" where
  "inspect_config_path e nodename pod path tr =
     (case subprocess_run e (ExecTestF pod path) tr of
        (Raised x, tr1) \<Rightarrow> (exception_config nodename path x, tr1)
      | (Completed rc out err, tr1) \<Rightarrow>
          (let config = \<lparr>config_node_name = nodename, config_path = path, exists = (rc = 0),
                          nvidia_runtime_configured = False, config_content = '''',
                          binary_name = '''', binary_exists = False, binary_path_used = '''',
                          error = None\<rparr>
           in if exists config then
                (case subprocess_run e (ExecCat pod path) tr1 of
                   (Raised x, tr2) \<Rightarrow> (exception_config nodename path x, tr2)
                 | (Completed rc2 out2 err2, tr2) \<Rightarrow>
                     if rc2 = 0 then
                       (let config2 = config\<lparr>config_content := out2,
                                             nvidia_runtime_configured := remote_nvidia_configured out2\<rparr>
                        in if nvidia_runtime_configured config2 then
                             (case extract_and_verify_binary e out2 pod tr2 of
                                (info, tr3) \<Rightarrow>
                                  (config2\<lparr>binary_name := info_binary_name info,
                                           binary_exists := info_binary_exists info,
                                           binary_path_used := info_binary_path info\<rparr>, tr3))
                           else (config2, tr2))
                     else (config\<lparr>error := Some (''Failed to read file: '' @ err2)\<rparr>, tr2))
              else (config, tr1)))"

fun inspect_config_paths ::
  "env \<Rightarrow> string \<Rightarrow> string \<Rightarrow> string list \<Rightarrow> trace \<Rightarrow> ContainerdConfig list \<times> trace" where
  "inspect_config_paths e nodename pod [] tr = ([], tr)"
| "inspect_config_paths e nodename pod (path # paths) tr =
     (case inspect_config_path e nodename pod path tr of
        (config, tr1) \<Rightarrow>
          (case inspect_config_paths e nodename pod paths tr1 of
             (configs, tr2) \<Rightarrow> (config # configs, tr2)))"

definition get_containerd_config_from_node ::
  "env \<Rightarrow> string \<Rightarrow> string \<Rightarrow> trace \<Rightarrow> ContainerdConfig list \<times> trace" where
  "get_containerd_config_from_node e nodename pod tr =
     inspect_config_paths e nodename pod remote_config_paths tr"

subsection \<open>The probe: \<^verbatim>\<open>run_gpu_detection_on_node\<close>\<close>

definition run_gpu_detection_on_node :: "env \<Rightarrow> string \<Rightarrow> string \<Rightarrow> trace \<Rightarrow> string \<times> trace" where
  "run_gpu_detection_on_node e nodename pod tr =
     (case subprocess_run e (ExecDetection pod) tr of
        (Completed rc out err, tr1) \<Rightarrow> (out @ err, tr1)
      | (Raised (TimeoutExpired m), tr1) \<Rightarrow> (''GPU detection timed out'', tr1)
      | (Raised x, tr1) \<Rightarrow> (''GPU detection failed: '' @ exc_str x, tr1))"

subsection \<open>The worker: \<^verbatim>\<open>analyze_single_node\<close>\<close>

text \<open>
  The body of the method, with the four calls it makes as parameters. The first two
  come before the \<^verbatim>\<open>try\<close> block: \<^verbatim>\<open>print\<close>, which writes the message or
  raises, and \<^verbatim>\<open>deploy_debug_pod\<close>, which returns a pair whatever happens in it
  (after its first assignment its whole body is a \<^verbatim>\<open>try\<close> block whose handler
  returns). The other two are the methods called inside the \<^verbatim>\<open>try\<close> block: each
  returns its value (\<open>Inr\<close>) or raises (\<open>Inl\<close>), so the handler
  \<^verbatim>\<open>except Exception as e\<close> is a branch for whatever they do. The result is
  \<open>Inr\<close> of the status returned, or \<open>Inl\<close> of an exception that leaves the method.
\<close>

definition analyze_single_node_with ::
  "(message \<Rightarrow> trace \<Rightarrow> py_exception option) \<Rightarrow>
   (string \<Rightarrow> trace \<Rightarrow> (bool \<times> string) \<times> trace) \<Rightarrow>
   (string \<Rightarrow> string \<Rightarrow> trace \<Rightarrow> (py_exception + ContainerdConfig list) \<times> trace) \<Rightarrow>
   (string \<Rightarrow> string \<Rightarrow> trace \<Rightarrow> (py_exception + string) \<times> trace) \<Rightarrow>
   NodeInfo \<Rightarrow> trace \<Rightarrow> (py_exception + NodeGPUStatus) \<times> trace" where
  "analyze_single_node_with print_message deploy get_config run_detection node tr =
     (case print_message (AnalyzingNode (name node)) tr of
        Some x \<Rightarrow> (Inl x, tr)
      | None \<Rightarrow>
     (case deploy (name node) tr of
        ((success, pod_name_or_error), tr1) \<Rightarrow>
          if \<not> success then
            (Inr \<lparr>node_name = name node, containerd_configs = [],
                   gpu_failure_symptoms = None, debug_pod_deployed = False,
                   execution_error = Some pod_name_or_error\<rparr>, tr1)
          else
            (case get_config (name node) pod_name_or_error tr1 of
               (Inl x, tr2) \<Rightarrow>
                 (Inr \<lparr>node_name = name node, containerd_configs = [],
                        gpu_failure_symptoms = None, debug_pod_deployed = True,
                        execution_error = Some (''Analysis failed: '' @ exc_str x)\<rparr>, tr2)
             | (Inr configs, tr2) \<Rightarrow>
                 (case run_detection (name node) pod_name_or_error tr2 of
                    (Inl x, tr3) \<Rightarrow>
                      (Inr \<lparr>node_name = name node, containerd_configs = [],
                             gpu_failure_symptoms = None, debug_pod_deployed = True,
                             execution_error = Some (''Analysis failed: '' @ exc_str x)\<rparr>, tr3)
                  | (Inr gpu_symptoms, tr3) \<Rightarrow>
                      (Inr \<lparr>node_name = name node, containerd_configs = configs,
                             gpu_failure_symptoms = Some gpu_symptoms,
                             debug_pod_deployed = True, execution_error = None\<rparr>, tr3)))))"

text \<open>
  The method itself: the four calls are the analyzer's own. Its two methods called
  inside the \<^verbatim>\<open>try\<close> block return, since each handles the exceptions of its
  calls itself.
\<close>

definition analyze_single_node :: "env \<Rightarrow> NodeInfo \<Rightarrow> trace \<Rightarrow> (py_exception + NodeGPUStatus) \<times> trace" where
  "analyze_single_node e node tr =
     analyze_single_node_with
       (py_print e)
       (deploy_debug_pod e)
       (\<lambda>nodename pod t. case get_containerd_config_from_node e nodename pod t of
                            (configs, t') \<Rightarrow> (Inr configs, t'))
       (\<lambda>nodename pod t. case run_gpu_detection_on_node e nodename pod t of
                            (symptoms, t') \<Rightarrow> (Inr symptoms, t'))
       node tr"

subsection \<open>The orchestrator: \<^verbatim>\<open>analyze_cluster\<close>\<close>

text \<open>
  \<^verbatim>\<open>get_cluster_nodes\<close>: every exception inside its \<^verbatim>\<open>try\<close> block ends in
  \<^verbatim>\<open>return []\<close>; \<^verbatim>\<open>check=True\<close> raises on a return code other than 0.
\<close>

definition get_cluster_nodes :: "env \<Rightarrow> trace \<Rightarrow> NodeInfo list \<times> trace" where
  "get_cluster_nodes e tr =
     (case subprocess_run e GetNodes tr of
        (Raised x, tr1) \<Rightarrow> ([], tr1)
      | (Completed rc out err, tr1) \<Rightarrow>
          if rc \<noteq> 0 then ([], tr1)
          else (case nodes_of_json e out of
                  Inl x \<Rightarrow> ([], tr1)
                | Inr nodes \<Rightarrow> (nodes, tr1)))"

text \<open>
  \<^verbatim>\<open>cleanup_debug_pods\<close>: one deletion per node; the bare \<^verbatim>\<open>except: pass\<close>
  goes on with the next node, as a completed call does, whatever its return code.
\<close>

fun cleanup_debug_pods :: "env \<Rightarrow> NodeInfo list \<Rightarrow> trace \<Rightarrow> trace" where
  "cleanup_debug_pods e [] tr = tr"
| "cleanup_debug_pods e (node # nodes) tr =
     (case subprocess_run e (DeletePod (cleanup_pod_name node)) tr of
        (Raised x, tr1) \<Rightarrow> cleanup_debug_pods e nodes tr1
      | (Completed rc out err, tr1) \<Rightarrow> cleanup_debug_pods e nodes tr1)"

text \<open>
  A Python dictionary keeps its keys in the order of their first insertion:
  \<^verbatim>\<open>d[k] = v\<close> replaces the value of a key in place and appends a new key.
\<close>

type_synonym 'v py_dict = "(string \<times> 'v) list"

fun dict_set :: "'v py_dict \<Rightarrow> string \<Rightarrow> 'v \<Rightarrow> 'v py_dict" where
  "dict_set [] k v = [(k, v)]"
| "dict_set ((k', v') # d) k v = (if k' = k then (k, v) # d else (k', v') # dict_set d k v)"

text \<open>
  The pool. The workers are run one after the other in the order of submission, which
  is one of the schedules of the pool (the one of \<^verbatim>\<open>max_workers = 1\<close>); each gives
  the outcome of its future, which is what \<^verbatim>\<open>future.result(timeout=120)\<close> gives
  the collecting loop: a status, or an exception (the worker's own, or the timeout's).
  \<^verbatim>\<open>as_completed\<close> yields every future once, in an order the program does not
  choose: the schedule picks, at each step, which of the futures left comes next.
\<close>

fun run_pool ::
  "(NodeInfo \<Rightarrow> trace \<Rightarrow> (py_exception + NodeGPUStatus) \<times> trace) \<Rightarrow> NodeInfo list \<Rightarrow> trace \<Rightarrow>
   (py_exception + NodeGPUStatus) list \<times> trace" where
  "run_pool worker [] tr = ([], tr)"
| "run_pool worker (node # nodes) tr =
     (case worker node tr of
        (future, tr1) \<Rightarrow>
          (case run_pool worker nodes tr1 of
             (futures, tr2) \<Rightarrow> (future # futures, tr2)))"

fun as_completed :: "nat list \<Rightarrow> 'a list \<Rightarrow> 'a list" where
  "as_completed [] fs = fs"
| "as_completed (k # ks) fs =
     (if fs = [] then []
      else (let i = k mod length fs
            in fs ! i # as_completed ks (take i fs @ drop (Suc i) fs)))"

text \<open>
  The loop that collects the results. \<open>cancel = Some k\<close> is the caller's interrupt
  arriving while the loop waits for the future after \<open>k\<close> collected ones; it is no
  \<^verbatim>\<open>Exception\<close>, so it leaves the loop and the \<^verbatim>\<open>with\<close> block.
\<close>

fun collect_results ::
  "(NodeInfo \<times> (py_exception + NodeGPUStatus)) list \<Rightarrow> nat option \<Rightarrow> NodeGPUStatus py_dict \<Rightarrow>
   interrupt + NodeGPUStatus py_dict" where
  "collect_results [] cancel results = Inr results"
| "collect_results ((node, future) # rest) cancel results =
     (if cancel = Some 0 then Inl KeyboardInterrupt
      else collect_results rest (map_option (\<lambda>k. k - 1) cancel)
             (case future of
                Inr result \<Rightarrow> dict_set results (name node) result
              | Inl x \<Rightarrow>
                  dict_set results (name node)
                    \<lparr>node_name = name node, containerd_configs = [],
                     gpu_failure_symptoms = None, debug_pod_deployed = False,
                     execution_error = Some (''Analysis exception: '' @ exc_str x)\<rparr>))"

text \<open>
  \<^verbatim>\<open>analyze_cluster\<close> with the worker as a parameter: leaving the \<^verbatim>\<open>with\<close>
  block waits for every worker, then the \<^verbatim>\<open>finally\<close> clause runs, then the
  mapping is returned or the interrupt goes on to the caller.
\<close>

definition analyze_cluster_with ::
  "(NodeInfo \<Rightarrow> trace \<Rightarrow> (py_exception + NodeGPUStatus) \<times> trace) \<Rightarrow>
   env \<Rightarrow> bool \<Rightarrow> nat list \<Rightarrow> nat option \<Rightarrow> trace \<Rightarrow>
   (interrupt + NodeGPUStatus py_dict) \<times> trace" where
  "analyze_cluster_with worker e cleanup schedule cancel tr =
     (case get_cluster_nodes e tr of
        (nodes, tr0) \<Rightarrow>
          if nodes = [] then (Inr [], tr0)
          else
            (case run_pool worker nodes tr0 of
               (futures, tr1) \<Rightarrow>
                 (collect_results (as_completed schedule (zip nodes futures)) cancel [],
                  if cleanup then cleanup_debug_pods e nodes tr1 else tr1)))"

definition analyze_cluster ::
  "env \<Rightarrow> bool \<Rightarrow> nat list \<Rightarrow> nat option \<Rightarrow> trace \<Rightarrow> (interrupt + NodeGPUStatus py_dict) \<times> trace" where
  "analyze_cluster e cleanup schedule cancel tr =
     analyze_cluster_with (analyze_single_node e) e cleanup schedule cancel tr"

subsection \<open>The issue list: \<^verbatim>\<open>get_runtime_config_issues\<close>\<close>

text \<open>Python's truth value of an \<^verbatim>\<open>Optional[str]\<close>.\<close>

definition py_truthy :: "string option \<Rightarrow> bool" where
  "py_truthy v = (case v of None \<Rightarrow> False | Some s \<Rightarrow> s \<noteq> [])"

text \<open>The inner loop over the node's records, appending to \<open>issues\<close>.\<close>

fun missing_binary_issues :: "string \<Rightarrow> ContainerdConfig list \<Rightarrow> string list \<Rightarrow> string list" where
  "missing_binary_issues nodename [] issues = issues"
| "missing_binary_issues nodename (config # configs) issues =
     (if nvidia_runtime_configured config \<and> binary_name config \<noteq> [] \<and> \<not> binary_exists config
      then missing_binary_issues nodename configs
             (issues @ [''Node '' @ nodename @ '': NVIDIA runtime binary not found at ''
                          @ binary_name config])
      else missing_binary_issues nodename configs issues)"

fun runtime_config_issues_loop :: "NodeGPUStatus py_dict \<Rightarrow> string list \<Rightarrow> string list" where
  "runtime_config_issues_loop [] issues = issues"
| "runtime_config_issues_loop ((nodename, result) # rest) issues =
     (if py_truthy (execution_error result) then runtime_config_issues_loop rest issues
      else
        (let has_nvidia_runtime =
               list_ex nvidia_runtime_configured (filter exists (containerd_configs result));
             issues1 =
               (if \<not> has_nvidia_runtime
                then issues @ [''Node '' @ nodename
                                 @ '': NVIDIA runtime not configured in containerd config'']
                else issues)
         in runtime_config_issues_loop rest
              (missing_binary_issues nodename (containerd_configs result) issues1)))"

definition get_runtime_config_issues :: "NodeGPUStatus py_dict \<Rightarrow> string list" where
  "get_runtime_config_issues results = runtime_config_issues_loop results []"

subsection \<open>The recommendations of \<^verbatim>\<open>print_cluster_report\<close>\<close>

text \<open>
  The last part of the report sorts the nodes of the mapping into three lists, with the
  tests of \<^verbatim>\<open>get_runtime_config_issues\<close>, and prints them as numbered sections,
  followed by the sections on the Helm release. The model has the three lists as the loop
  builds them and the sections in the order they are printed, each with the entries it
  lists; the lines of advice of a section, which do not depend on the mapping, are left
  out. \<open>helm_config_status\<close> holds the two entries that this part reads of the
  dictionary returned by \<^verbatim>\<open>check_gpu_operator_helm_config\<close>.
\<close>

record missing_binary_node =
  entry_node :: string
  entry_binary_path :: string
  entry_config_path :: string

record node_lists =
  unconfigured_nodes :: "string list"
  error_nodes :: "string list"
  missing_binary_nodes :: "missing_binary_node list"

record helm_config_status =
  helm_release_found :: bool
  toolkit_config_valid :: bool

fun missing_binary_entries ::
  "string \<Rightarrow> ContainerdConfig list \<Rightarrow> missing_binary_node list \<Rightarrow> missing_binary_node list" where
  "missing_binary_entries nodename [] entries = entries"
| "missing_binary_entries nodename (config # configs) entries =
     (if nvidia_runtime_configured config \<and> binary_name config \<noteq> [] \<and> \<not> binary_exists config
      then missing_binary_entries nodename configs
             (entries @ [\<lparr>entry_node = nodename, entry_binary_path = binary_name config,
                           entry_config_path = config_path config\<rparr>])
      else missing_binary_entries nodename configs entries)"

fun sort_nodes :: "NodeGPUStatus py_dict \<Rightarrow> node_lists \<Rightarrow> node_lists" where
  "sort_nodes [] acc = acc"
| "sort_nodes ((nodename, result) # rest) acc =
     (if py_truthy (execution_error result)
      then sort_nodes rest (acc\<lparr>error_nodes := error_nodes acc @ [nodename]\<rparr>)
      else
        (let has_nvidia_runtime =
               list_ex nvidia_runtime_configured (filter exists (containerd_configs result))
         in if \<not> has_nvidia_runtime
            then sort_nodes rest
                   (acc\<lparr>unconfigured_nodes := unconfigured_nodes acc @ [nodename]\<rparr>)
            else sort_nodes rest
                   (acc\<lparr>missing_binary_nodes :=
                            missing_binary_entries nodename (containerd_configs result)
                              (missing_binary_nodes acc)\<rparr>)))"

datatype report_section =
    MissingBinarySection "missing_binary_node list"
  | UnconfiguredSection "string list"
  | ErrorSection "string list"
  | VerifyToolkitSection
  | InstallReleaseSection
  | FixReleaseSection
  | RestartContainerdSection

definition cluster_recommendations ::
  "helm_config_status \<Rightarrow> NodeGPUStatus py_dict \<Rightarrow> report_section list" where
  "cluster_recommendations helm results =
     (let sorted_nodes =
            sort_nodes results
              \<lparr>unconfigured_nodes = [], error_nodes = [], missing_binary_nodes = []\<rparr>
      in (if missing_binary_nodes sorted_nodes \<noteq> []
          then [MissingBinarySection (missing_binary_nodes sorted_nodes)] else [])
         @ (if unconfigured_nodes sorted_nodes \<noteq> []
            then [UnconfiguredSection (unconfigured_nodes sorted_nodes)] else [])
         @ (if error_nodes sorted_nodes \<noteq> []
            then [ErrorSection (error_nodes sorted_nodes)] else [])
         @ [VerifyToolkitSection]
         @ (if \<not> helm_release_found helm then [InstallReleaseSection]
            else if \<not> toolkit_config_valid helm then [FixReleaseSection]
            else [])
         @ [RestartContainerdSection])"

subsection \<open>The local path: \<^verbatim>\<open>check_local_node_config\<close>\<close>

text \<open>
  The local file system, as the method reads it. The dataclass has nine fields; a call
  of its constructor with any other keyword raises \<^verbatim>\<open>TypeError\<close>, and both calls
  made for an existing path pass \<^verbatim>\<open>config_valid\<close>.
\<close>

record local_fs =
  path_exists :: "string \<Rightarrow> bool"
  read_file :: "string \<Rightarrow> py_exception + string"

definition ContainerdConfig_fields :: "string list" where
  "ContainerdConfig_fields =
     [''node_name'', ''config_path'', ''exists'', ''nvidia_runtime_configured'',
      ''config_content'', ''binary_name'', ''binary_exists'', ''binary_path_used'', ''error'']"

definition ContainerdConfig_init :: "string list \<Rightarrow> ContainerdConfig \<Rightarrow> py_exception + ContainerdConfig" where
  "ContainerdConfig_init keywords c =
     (case filter (\<lambda>k. k \<notin> set ContainerdConfig_fields) keywords of
        [] \<Rightarrow> Inr c
      | k # ks \<Rightarrow>
          Inl (TypeError (''__init__() got an unexpected keyword argument ''
                            @ [CHR 0x27] @ k @ [CHR 0x27])))"

fun local_binary_name :: "local_fs \<Rightarrow> string list \<Rightarrow> string \<times> bool" where
  "local_binary_name fs [] = ('''', False)"
| "local_binary_name fs (line # rest) =
     (if is_binary_name_line line then
        (let parts = py_split1 CHR ''='' line in
         if length parts = 2 then
           (let b = strip_binary_path (parts ! 1) in (b, path_exists fs b))
         else local_binary_name fs rest)
      else local_binary_name fs rest)"

text \<open>The \<^verbatim>\<open>try\<close> block for one existing path, and the record of its handler.\<close>

definition local_try :: "local_fs \<Rightarrow> string \<Rightarrow> py_exception + ContainerdConfig" where
  "local_try fs path =
     (case read_file fs path of
        Inl x \<Rightarrow> Inl x
      | Inr content \<Rightarrow>
          (let nvidia_configured = local_nvidia_configured content in
           case local_binary_name fs (py_split CHR 0x0A content) of
             (b, b_exists) \<Rightarrow>
               ContainerdConfig_init
                 [''node_name'', ''config_path'', ''exists'', ''nvidia_runtime_configured'',
                  ''config_content'', ''binary_name'', ''binary_exists'', ''binary_path_used'',
                  ''config_valid'']
                 \<lparr>config_node_name = ''localhost'', config_path = path, exists = True,
                  nvidia_runtime_configured = nvidia_configured, config_content = content,
                  binary_name = b, binary_exists = b_exists, binary_path_used = b,
                  error = None\<rparr>))"

definition local_except :: "string \<Rightarrow> py_exception \<Rightarrow> py_exception + ContainerdConfig" where
  "local_except path x =
     ContainerdConfig_init
       [''node_name'', ''config_path'', ''exists'', ''nvidia_runtime_configured'',
        ''config_content'', ''config_valid'', ''error'']
       \<lparr>config_node_name = ''localhost'', config_path = path, exists = True,
        nvidia_runtime_configured = False, config_content = '''', binary_name = '''',
        binary_exists = False, binary_path_used = '''',
        error = Some (''Failed to read: '' @ exc_str x)\<rparr>"

fun check_local_paths ::
  "local_fs \<Rightarrow> string list \<Rightarrow> ContainerdConfig list \<Rightarrow> py_exception + ContainerdConfig list" where
  "check_local_paths fs [] configs = Inr configs"
| "check_local_paths fs (path # paths) configs =
     (if path_exists fs path then
        (case local_try fs path of
           Inr c \<Rightarrow> check_local_paths fs paths (configs @ [c])
         | Inl x \<Rightarrow>
             (case local_except path x of
                Inr c \<Rightarrow> check_local_paths fs paths (configs @ [c])
              | Inl y \<Rightarrow> Inl y))
      else check_local_paths fs paths configs)"

definition local_config_paths :: "string list" where
  "local_config_paths =
     [''/var/lib/k8s-containerd/k8s-containerd/etc/containerd/config.toml'',
      ''/etc/containerd/config.toml'',
      ''/var/lib/rancher/k3s/agent/etc/containerd/config.toml'']"

definition check_local_node_config :: "local_fs \<Rightarrow> py_exception + ContainerdConfig list" where
  "check_local_node_config fs =
     (case check_local_paths fs local_config_paths [] of
        Inl x \<Rightarrow> Inl x
      | Inr configs \<Rightarrow>
          if configs = [] then
            Inr [\<lparr>config_node_name = ''localhost'', config_path = '''', exists = False,
                  nvidia_runtime_configured = False, config_content = '''', binary_name = '''',
                  binary_exists = False, binary_path_used = '''',
                  error = Some ''No containerd config found''\<rparr>]
          else Inr configs)"

subsection \<open>Notions the statements use\<close>

text \<open>
  A marker occurs in a text as a case-insensitive substring: some substring of the text
  is the marker once its letters are lowered.
\<close>

definition contains_ci :: "string \<Rightarrow> string \<Rightarrow> bool" where
  "contains_ci marker text = (\<exists>pre mid suf. text = pre @ mid @ suf \<and> py_lower mid = marker)"

text \<open>
  What the trace means for the cluster: the inspection pods present after the events,
  from those present before. A completed \<^verbatim>\<open>kubectl apply\<close> with return code 0 has
  created the pod of the specification; a completed \<^verbatim>\<open>kubectl delete pod\<close> with
  return code 0 leaves no pod of that name. This reading of kubectl's return codes is the
  only assumption made about the cluster.
\<close>

fun cluster_step :: "event \<Rightarrow> string set \<Rightarrow> string set" where
  "cluster_step (Call (ApplyPod s) (Completed rc out err)) pods =
     (if rc = 0 then insert (metadata_name s) pods else pods)"
| "cluster_step (Call (DeletePod p) (Completed rc out err)) pods =
     (if rc = 0 then pods - {p} else pods)"
| "cluster_step ev pods = pods"

definition cluster_pods :: "trace \<Rightarrow> string set \<Rightarrow> string set" where
  "cluster_pods tr pods = fold cluster_step tr pods"

text \<open>The seconds slept and the commands issued in a trace.\<close>

fun slept :: "trace \<Rightarrow> nat" where
  "slept [] = 0"
| "slept (Sleep n # tr) = n + slept tr"
| "slept (Call c r # tr) = slept tr"

fun commands :: "trace \<Rightarrow> kubectl_cmd list" where
  "commands [] = []"
| "commands (Sleep n # tr) = commands tr"
| "commands (Call c r # tr) = c # commands tr"

text \<open>
  The first line of a text that passes the test of the extraction loop, and the text
  after the first \<^verbatim>\<open>=\<close> of a line.
\<close>

definition first_binary_name_line :: "string \<Rightarrow> string" where
  "first_binary_name_line content = hd (filter is_binary_name_line (py_split CHR 0x0A content))"

definition right_hand_side :: "string \<Rightarrow> string" where
  "right_hand_side line = tl (dropWhile (\<lambda>c. c \<noteq> CHR ''='') line)"

text \<open>
  A text with its surrounding whitespace and its surrounding single or double quote
  characters stripped, read as one stripping: every character at either end that is a
  whitespace character or a quote is removed.
\<close>

definition is_quote :: "char \<Rightarrow> bool" where
  "is_quote c = (c = CHR 0x22 \<or> c = CHR 0x27)"

definition surrounding_stripped :: "string \<Rightarrow> string" where
  "surrounding_stripped rhs = strip_where (\<lambda>c. is_space c \<or> is_quote c) rhs"

text \<open>The two kinds of issue, and the issues of one entry of the mapping.\<close>

definition unconfigured_issue :: "string \<Rightarrow> string" where
  "unconfigured_issue nodename =
     ''Node '' @ nodename @ '': NVIDIA runtime not configured in containerd config''"

definition missing_binary_issue :: "string \<Rightarrow> ContainerdConfig \<Rightarrow> string" where
  "missing_binary_issue nodename config =
     ''Node '' @ nodename @ '': NVIDIA runtime binary not found at '' @ binary_name config"

definition binary_missing :: "ContainerdConfig \<Rightarrow> bool" where
  "binary_missing config =
     (nvidia_runtime_configured config \<and> binary_name config \<noteq> [] \<and> \<not> binary_exists config)"

text \<open>
  The issues that the recommendations list, in the order of the sections and of the
  entries of each section, and the rank of each kind of issue in the fixed priority.
\<close>

datatype issue =
    MissingBinary string string
  | Unconfigured string
  | ExecutionError string
  | ReleaseConfiguration

fun section_issues :: "report_section \<Rightarrow> issue list" where
  "section_issues (MissingBinarySection entries) =
     map (\<lambda>m. MissingBinary (entry_node m) (entry_binary_path m)) entries"
| "section_issues (UnconfiguredSection nodes) = map Unconfigured nodes"
| "section_issues (ErrorSection nodes) = map ExecutionError nodes"
| "section_issues InstallReleaseSection = [ReleaseConfiguration]"
| "section_issues FixReleaseSection = [ReleaseConfiguration]"
| "section_issues VerifyToolkitSection = []"
| "section_issues RestartContainerdSection = []"

definition recommended_issues :: "helm_config_status \<Rightarrow> NodeGPUStatus py_dict \<Rightarrow> issue list" where
  "recommended_issues helm results =
     concat (map section_issues (cluster_recommendations helm results))"

fun priority :: "issue \<Rightarrow> nat" where
  "priority (MissingBinary nodename path) = 0"
| "priority (Unconfigured nodename) = 1"
| "priority (ExecutionError nodename) = 2"
| "priority ReleaseConfiguration = 3"

text \<open>The three lists of the recommendations, as filters of the mapping.\<close>

definition has_error :: "string \<times> NodeGPUStatus \<Rightarrow> bool" where
  "has_error entry = py_truthy (execution_error (snd entry))"

definition has_nvidia_runtime :: "string \<times> NodeGPUStatus \<Rightarrow> bool" where
  "has_nvidia_runtime entry =
     list_ex nvidia_runtime_configured (filter exists (containerd_configs (snd entry)))"

definition missing_binaries :: "string \<times> NodeGPUStatus \<Rightarrow> missing_binary_node list" where
  "missing_binaries entry =
     map (\<lambda>config. \<lparr>entry_node = fst entry, entry_binary_path = binary_name config,
                      entry_config_path = config_path config\<rparr>)
       (filter binary_missing (containerd_configs (snd entry)))"

definition node_issues :: "string \<times> NodeGPUStatus \<Rightarrow> string list" where
  "node_issues entry =
     (if py_truthy (execution_error (snd entry)) then []
      else (if list_ex nvidia_runtime_configured (filter exists (containerd_configs (snd entry)))
            then [] else [unconfigured_issue (fst entry)])
           @ map (missing_binary_issue (fst entry))
               (filter binary_missing (containerd_configs (snd entry))))"

subsection \<open>Example values\<close>

text \<open>
  A config text that names both markers and has two binary-name lines, the first of
  them \<^verbatim>\<open>BinaryName = "/usr/bin/foo"\<close>.
\<close>

definition example_config :: string where
  "example_config =
     ''[plugins.cri.containerd.runtimes.nvidia]'' @ [CHR 0x0A] @
     ''  runtime_type = '' @ [CHR 0x22] @ ''io.containerd.runc.v2'' @ [CHR 0x22] @ [CHR 0x0A] @
     ''  [plugins.cri.containerd.runtimes.nvidia.options]'' @ [CHR 0x0A] @
     ''    BinaryName = '' @ [CHR 0x22] @ ''/usr/bin/foo'' @ [CHR 0x22] @ [CHR 0x0A] @
     ''    BinaryName = '' @ [CHR 0x22] @ ''/opt/other'' @ [CHR 0x22]"

text \<open>
  Three more texts with both markers and one binary-name line. In the first the value is
  in single quotes, \<^verbatim>\<open>BinaryName='/usr/bin/foo'\<close>. In the second it is in double
  quotes between a no-break space (U+00A0) and a next-line character (U+0085). In the
  third it is in double quotes inside single quotes,
  \<^verbatim>\<open>BinaryName = '"/usr/bin/foo"'\<close>.
\<close>

definition single_quoted_config :: string where
  "single_quoted_config =
     ''[nvidia] runtime_type = io.containerd.runc.v2'' @ [CHR 0x0A] @
     ''BinaryName='' @ [CHR 0x27] @ ''/usr/bin/foo'' @ [CHR 0x27]"

definition no_break_space_config :: string where
  "no_break_space_config =
     ''[nvidia] runtime_type = io.containerd.runc.v2'' @ [CHR 0x0A] @
     ''BinaryName ='' @ [CHR 0xA0, CHR 0x22] @ ''/usr/bin/foo'' @ [CHR 0x22, CHR 0x85]"

definition nested_quotes_config :: string where
  "nested_quotes_config =
     ''[nvidia] runtime_type = io.containerd.runc.v2'' @ [CHR 0x0A] @
     ''BinaryName = '' @ [CHR 0x27, CHR 0x22] @ ''/usr/bin/foo'' @ [CHR 0x22, CHR 0x27]"

text \<open>A cluster where every file exists and holds the third text.\<close>

definition nested_quotes_env :: env where
  "nested_quotes_env =
     \<lparr>kubectl = (\<lambda>h c. case c of
                    ExecCat p path \<Rightarrow> Completed 0 nested_quotes_config []
                  | _ \<Rightarrow> Completed 0 [] []),
      nodes_of_json = (\<lambda>s. Inr []),
      stdout = (\<lambda>h m. None)\<rparr>"

text \<open>
  The outcomes of three nodes, each with one record per candidate path: \<open>A\<close> with
  a configured runtime whose binary is present, \<open>B\<close> with a configured runtime
  whose binary is missing, both in the file \<^verbatim>\<open>/host/etc/containerd/config.toml\<close>
  and with no file at the four other paths, and \<open>C\<close> with no config file at any of
  the candidate paths.
\<close>

definition example_config_record :: "string \<Rightarrow> bool \<Rightarrow> ContainerdConfig" where
  "example_config_record nodename present =
     \<lparr>config_node_name = nodename, config_path = ''/host/etc/containerd/config.toml'',
      exists = True, nvidia_runtime_configured = True, config_content = example_config,
      binary_name = ''/usr/bin/foo'', binary_exists = present,
      binary_path_used = ''/usr/bin/foo'', error = None\<rparr>"

definition absent_config_record :: "string \<Rightarrow> string \<Rightarrow> ContainerdConfig" where
  "absent_config_record nodename path =
     \<lparr>config_node_name = nodename, config_path = path, exists = False,
      nvidia_runtime_configured = False, config_content = '''', binary_name = '''',
      binary_exists = False, binary_path_used = '''', error = None\<rparr>"

definition example_status :: "string \<Rightarrow> ContainerdConfig list \<Rightarrow> NodeGPUStatus" where
  "example_status nodename configs =
     \<lparr>node_name = nodename, containerd_configs = configs,
      gpu_failure_symptoms = Some ''=== GPU DETECTION RESULTS ==='',
      debug_pod_deployed = True, execution_error = None\<rparr>"

definition example_records :: "string \<Rightarrow> bool \<Rightarrow> ContainerdConfig list" where
  "example_records nodename present =
     map (\<lambda>path. if path = ''/host/etc/containerd/config.toml''
                  then example_config_record nodename present
                  else absent_config_record nodename path)
       remote_config_paths"

definition status_A :: NodeGPUStatus where
  "status_A = example_status ''A'' (example_records ''A'' True)"

definition status_B :: NodeGPUStatus where
  "status_B = example_status ''B'' (example_records ''B'' False)"

definition status_C :: NodeGPUStatus where
  "status_C = example_status ''C'' (map (absent_config_record ''C'') remote_config_paths)"

text \<open>
  The outcome of a node \<open>E\<close> whose pod could not be created, and a Helm release that
  is found and valid, and one that is not found.
\<close>

definition status_E :: NodeGPUStatus where
  "status_E =
     \<lparr>node_name = ''E'', containerd_configs = [], gpu_failure_symptoms = None,
      debug_pod_deployed = False, execution_error = Some ''Failed to create pod: forbidden''\<rparr>"

definition valid_release :: helm_config_status where
  "valid_release = \<lparr>helm_release_found = True, toolkit_config_valid = True\<rparr>"

definition no_release :: helm_config_status where
  "no_release = \<lparr>helm_release_found = False, toolkit_config_valid = False\<rparr>"

text \<open>
  An environment whose every call completes with return code 0 and no output, and a
  local file system with one config file, which spells the markers with capitals.
\<close>

definition quiet_env :: env where
  "quiet_env = \<lparr>kubectl = (\<lambda>h c. Completed 0 [] []), nodes_of_json = (\<lambda>s. Inr []),
                 stdout = (\<lambda>h m. None)\<rparr>"

definition capitals_fs :: local_fs where
  "capitals_fs =
     \<lparr>path_exists = (\<lambda>p. p = ''/etc/containerd/config.toml''),
      read_file = (\<lambda>p. Inr ''Nvidia RunC'')\<rparr>"

subsection \<open>Notions the statements about traces use\<close>

text \<open>
  The readiness wait seen as polls of the phase and waits: every other call is left out.
\<close>

datatype tick = Poll | Wait nat

fun timeline :: "trace \<Rightarrow> tick list" where
  "timeline [] = []"
| "timeline (Sleep n # tr) = Wait n # timeline tr"
| "timeline (Call (GetPhase p) r # tr) = Poll # timeline tr"
| "timeline (Call c r # tr) = timeline tr"

text \<open>
  The inspection pod never reaches the phase \<^verbatim>\<open>Running\<close> with its container
  ready: whenever its phase is asked for, the answer is a phase, and if that phase is
  \<^verbatim>\<open>Running\<close> the readiness asked for next is not \<^verbatim>\<open>true\<close>.
\<close>

definition never_ready :: "env \<Rightarrow> string \<Rightarrow> bool" where
  "never_ready e pod =
     (\<forall>h. \<exists>rc out err. kubectl e h (GetPhase pod) = Completed rc out err \<and>
        (out = ''Running'' \<longrightarrow>
          (\<exists>rc2 out2 err2.
             kubectl e (h @ [Call (GetPhase pod) (Completed rc out err)]) (GetReady pod) =
               Completed rc2 out2 err2 \<and> out2 \<noteq> ''true'')))"

text \<open>
  An event of a worker for the pod \<open>pod\<close>: a sleep, or a command that names this pod
  and does not delete it.
\<close>

fun concerns :: "string \<Rightarrow> event \<Rightarrow> bool" where
  "concerns pod (Sleep n) = True"
| "concerns pod (Call (GetPod p) r) = (p = pod)"
| "concerns pod (Call (ApplyPod s) r) = (metadata_name s = pod)"
| "concerns pod (Call (GetPhase p) r) = (p = pod)"
| "concerns pod (Call (GetReady p) r) = (p = pod)"
| "concerns pod (Call (DescribePod p) r) = (p = pod)"
| "concerns pod (Call (ExecTestF p path) r) = (p = pod)"
| "concerns pod (Call (ExecCat p path) r) = (p = pod)"
| "concerns pod (Call (ExecDetection p) r) = (p = pod)"
| "concerns pod (Call (DeletePod p) r) = False"
| "concerns pod (Call GetNodes r) = False"

text \<open>The trace \<open>tr'\<close> is \<open>tr\<close> followed by events that all satisfy \<open>P\<close>.\<close>

definition extends :: "(event \<Rightarrow> bool) \<Rightarrow> trace \<Rightarrow> trace \<Rightarrow> bool" where
  "extends P tr tr' = (\<exists>evs. tr' = tr @ evs \<and> list_all P evs)"

text \<open>
  What the collecting loop stores for a future: the status the worker returned, or a
  status with an execution error made from the exception.
\<close>

definition recorded_outcome :: "NodeInfo \<Rightarrow> py_exception + NodeGPUStatus \<Rightarrow> NodeGPUStatus" where
  "recorded_outcome node future =
     (case future of
        Inr result \<Rightarrow> result
      | Inl x \<Rightarrow> \<lparr>node_name = name node, containerd_configs = [],
                   gpu_failure_symptoms = None, debug_pod_deployed = False,
                   execution_error = Some (''Analysis exception: '' @ exc_str x)\<rparr>)"

text \<open>
  Listing the nodes fails: the call raises, or returns a code other than 0, or its
  output cannot be turned into nodes. Listing succeeds with no node.
\<close>

definition discovery_fails :: "env \<Rightarrow> trace \<Rightarrow> bool" where
  "discovery_fails e tr =
     (case kubectl e tr GetNodes of
        Raised x \<Rightarrow> True
      | Completed rc out err \<Rightarrow> rc \<noteq> 0 \<or> (\<exists>x. nodes_of_json e out = Inl x))"

definition discovers_no_node :: "env \<Rightarrow> trace \<Rightarrow> bool" where
  "discovers_no_node e tr =
     (\<exists>out err. kubectl e tr GetNodes = Completed 0 out err \<and> nodes_of_json e out = Inr [])"

subsection \<open>Example clusters\<close>

definition node_a :: NodeInfo where
  "node_a = \<lparr>name = ''node-a'', roles = [''worker''], status = ''Ready'', gpu_pods = 0,
              has_gpu_resources = True\<rparr>"

definition node_b :: NodeInfo where
  "node_b = \<lparr>name = ''node-b.example.com'', roles = [''worker''], status = ''Ready'',
              gpu_pods = 1, has_gpu_resources = True\<rparr>"

text \<open>
  Two nodes without inspection pods; a pod is created when asked for and is ready at
  the first poll; no config file exists; deletions succeed.
\<close>

definition two_node_env :: env where
  "two_node_env =
     \<lparr>kubectl = (\<lambda>h c. case c of
                    GetPod p \<Rightarrow> Completed 1 [] ''NotFound''
                  | GetPhase p \<Rightarrow> Completed 0 ''Running'' []
                  | GetReady p \<Rightarrow> Completed 0 ''true'' []
                  | ExecTestF p path \<Rightarrow> Completed 1 [] []
                  | _ \<Rightarrow> Completed 0 [] []),
      nodes_of_json = (\<lambda>s. Inr [node_a, node_b]),
      stdout = (\<lambda>h m. None)\<rparr>"

text \<open>A cluster whose inspection pods stay in the phase \<^verbatim>\<open>Pending\<close>.\<close>

definition pending_env :: env where
  "pending_env =
     \<lparr>kubectl = (\<lambda>h c. case c of
                    GetPod p \<Rightarrow> Completed 1 [] ''NotFound''
                  | GetPhase p \<Rightarrow> Completed 0 ''Pending'' []
                  | DescribePod p \<Rightarrow> Completed 0 ''Warning FailedScheduling'' []
                  | _ \<Rightarrow> Completed 0 [] []),
      nodes_of_json = (\<lambda>s. Inr [node_a]),
      stdout = (\<lambda>h m. None)\<rparr>"

text \<open>No kubectl binary: every call raises. A server that refuses every request.\<close>

definition broken_env :: env where
  "broken_env =
     \<lparr>kubectl = (\<lambda>h c. Raised (OtherException ''No such file or directory: kubectl'')),
      nodes_of_json = (\<lambda>s. Inr [node_a]),
      stdout = (\<lambda>h m. None)\<rparr>"

definition unreachable_env :: env where
  "unreachable_env =
     \<lparr>kubectl = (\<lambda>h c. Completed 1 [] ''The connection to the server was refused''),
      nodes_of_json = (\<lambda>s. Inl (OtherException ''Expecting value: line 1 column 1 (char 0)'')),
      stdout = (\<lambda>h m. None)\<rparr>"

text \<open>
  A worker whose future raises for \<^verbatim>\<open>node-a\<close> and returns for every other node,
  and steps that raise or return at once.
\<close>

definition flaky_worker :: "NodeInfo \<Rightarrow> trace \<Rightarrow> (py_exception + NodeGPUStatus) \<times> trace" where
  "flaky_worker node tr =
     (if name node = ''node-a'' then Inl (OtherException ''worker crashed'')
      else Inr (example_status (name node) []), tr)"

definition raising_config_step ::
  "string \<Rightarrow> string \<Rightarrow> trace \<Rightarrow> (py_exception + ContainerdConfig list) \<times> trace" where
  "raising_config_step nodename pod tr = (Inl (OtherException ''connection reset''), tr)"

definition empty_config_step ::
  "string \<Rightarrow> string \<Rightarrow> trace \<Rightarrow> (py_exception + ContainerdConfig list) \<times> trace" where
  "empty_config_step nodename pod tr = (Inr [], tr)"

definition raising_detection_step ::
  "string \<Rightarrow> string \<Rightarrow> trace \<Rightarrow> (py_exception + string) \<times> trace" where
  "raising_detection_step nodename pod tr = (Inl (OtherException ''broken pipe''), tr)"

text \<open>
  The cluster of \<open>two_node_env\<close> seen through a standard output whose encoding is
  ASCII: printing the worker's message, which starts with U+1F50D, raises.
\<close>

definition ascii_codec_error :: py_exception where
  "ascii_codec_error =
     UnicodeEncodeError
       ([CHR 0x27] @ ''ascii'' @ [CHR 0x27] @ '' codec can'' @ [CHR 0x27]
        @ ''t encode character '' @ [CHR 0x27, CHR 0x5C] @ ''U0001f50d'' @ [CHR 0x27]
        @ '' in position 0: ordinal not in range(128)'')"

definition ascii_stdout_env :: env where
  "ascii_stdout_env = two_node_env\<lparr>stdout := (\<lambda>h m. Some ascii_codec_error)\<rparr>"

section \<open>Properties\<close>

subsection \<open>Strings\<close>

lemma starts_with_iff: "starts_with p s \<longleftrightarrow> (\<exists>suf. s = p @ suf)"
  by (induction p s rule: starts_with.induct) auto

lemma py_in_iff: "py_in needle hay \<longleftrightarrow> (\<exists>pre suf. hay = pre @ needle @ suf)"
proof (induction hay)
  case Nil
  then show ?case by auto
next
  case (Cons c cs)
  show ?case
  proof
    assume "py_in needle (c # cs)"
    then consider "starts_with needle (c # cs)" | "py_in needle cs" by auto
    then show "\<exists>pre suf. c # cs = pre @ needle @ suf"
    proof cases
      case 1
      then obtain suf where "c # cs = needle @ suf" by (auto simp: starts_with_iff)
      then have "c # cs = [] @ needle @ suf" by simp
      then show ?thesis by blast
    next
      case 2
      with Cons.IH obtain pre suf where "cs = pre @ needle @ suf" by blast
      then have "c # cs = (c # pre) @ needle @ suf" by simp
      then show ?thesis by blast
    qed
  next
    assume "\<exists>pre suf. c # cs = pre @ needle @ suf"
    then obtain pre suf where eq: "c # cs = pre @ needle @ suf" by blast
    show "py_in needle (c # cs)"
    proof (cases pre)
      case Nil
      with eq have "starts_with needle (c # cs)" by (auto simp: starts_with_iff)
      then show ?thesis by simp
    next
      case (Cons a pre')
      with eq have "cs = pre' @ needle @ suf" by simp
      with Cons.IH have "py_in needle cs" by blast
      then show ?thesis by simp
    qed
  qed
qed

lemma py_in_char_iff: "py_in [c] s \<longleftrightarrow> c \<in> set s"
  by (induction s) auto

lemma py_in_lower_iff: "py_in marker (py_lower content) \<longleftrightarrow> contains_ci marker content"
proof -
  have "(\<exists>pre suf. map lower_char content = pre @ marker @ suf) \<longleftrightarrow>
        (\<exists>pre mid suf. content = pre @ mid @ suf \<and> map lower_char mid = marker)"
  proof
    assume "\<exists>pre suf. map lower_char content = pre @ marker @ suf"
    then obtain pre suf where "map lower_char content = pre @ marker @ suf" by blast
    then obtain a b where ab: "content = a @ b" "map lower_char b = marker @ suf"
      by (metis map_eq_append_conv)
    from ab(2) obtain m s where "b = m @ s" "map lower_char m = marker"
      by (metis map_eq_append_conv)
    with ab(1) show "\<exists>pre mid suf. content = pre @ mid @ suf \<and> map lower_char mid = marker"
      by blast
  next
    assume "\<exists>pre mid suf. content = pre @ mid @ suf \<and> map lower_char mid = marker"
    then obtain pre mid suf where "content = pre @ mid @ suf" "map lower_char mid = marker"
      by blast
    then have "map lower_char content = map lower_char pre @ marker @ map lower_char suf"
      by simp
    then show "\<exists>pre suf. map lower_char content = pre @ marker @ suf" by blast
  qed
  then show ?thesis by (simp add: py_in_iff contains_ci_def py_lower_def)
qed

text \<open>The whitespace characters, by their codes.\<close>

lemma is_space_codes:
  "is_space c \<longleftrightarrow>
     (of_char c :: nat) \<in> {9, 10, 11, 12, 13, 28, 29, 30, 31, 32, 133, 160}"
proof -
  have e: "c = d \<longleftrightarrow> (of_char c :: nat) = of_char d" for d by simp
  show ?thesis
    unfolding is_space_def set_simps insert_iff empty_iff
    by (simp only: e [of "CHR 0x09"] e [of "CHR 0x0A"] e [of "CHR 0x0B"] e [of "CHR 0x0C"]
      e [of "CHR 0x0D"] e [of "CHR 0x1C"] e [of "CHR 0x1D"] e [of "CHR 0x1E"] e [of "CHR 0x1F"]
      e [of "CHR '' ''"] e [of "CHR 0x85"] e [of "CHR 0xA0"]) simp
qed

text \<open>
  Stripping takes a core that neither starts nor ends with a stripped character out of
  any wrapping of stripped characters.
\<close>

lemma strip_where_sandwich:
  assumes "\<forall>c \<in> set a. p c" and "\<forall>c \<in> set b. p c"
    and "m \<noteq> []" and "\<not> p (hd m)" and "\<not> p (last m)"
  shows "strip_where p (a @ m @ b) = m"
proof -
  from assms(3) obtain x xs where m: "m = x # xs" by (cases m) auto
  from assms(3) obtain ys y where m': "m = ys @ [y]" by (cases m rule: rev_cases) auto
  have 1: "dropWhile p (a @ m @ b) = m @ b"
    using assms(1,4) m by (simp add: dropWhile_append3)
  have 2: "dropWhile p (rev (m @ b)) = rev m"
    using assms(2,5) m' by (simp add: dropWhile_append3)
  show ?thesis by (simp add: strip_where_def 1 2 del: rev_append)
qed

subsection \<open>The marker test\<close>

text \<open>
  The remote path reports the runtime as configured exactly for the texts that contain
  both markers as case-insensitive substrings.
\<close>

lemma remote_nvidia_configured_iff:
  "remote_nvidia_configured content \<longleftrightarrow>
     contains_ci ''nvidia'' content \<and> contains_ci ''runc'' content"
  by (simp add: remote_nvidia_configured_def py_in_lower_iff)

text \<open>
  Claim C4, at the text \<^verbatim>\<open>Nvidia RunC\<close>: the remote path reports the runtime as
  configured; the marker test of the local path does not, since it looks for the
  lower-case markers in the text as it is; and \<^verbatim>\<open>check_local_node_config\<close>
  returns no record for the file at all: the constructor call of its \<^verbatim>\<open>try\<close>
  block raises \<^verbatim>\<open>TypeError\<close>, and so does the one of its handler.
\<close>

theorem local_path_marker_test_diverges:
  "remote_nvidia_configured ''Nvidia RunC''
   \<and> \<not> local_nvidia_configured ''Nvidia RunC''
   \<and> check_local_node_config capitals_fs =
       Inl (TypeError (''__init__() got an unexpected keyword argument ''
                         @ [CHR 0x27] @ ''config_valid'' @ [CHR 0x27]))"
proof -
  have "remote_nvidia_configured ''Nvidia RunC''"
    by (simp add: remote_nvidia_configured_def py_lower_def lower_char_def)
  moreover have "\<not> local_nvidia_configured ''Nvidia RunC''"
    by (simp add: local_nvidia_configured_def)
  moreover have "check_local_node_config capitals_fs =
       Inl (TypeError (''__init__() got an unexpected keyword argument ''
                         @ [CHR 0x27] @ ''config_valid'' @ [CHR 0x27]))"
    by (simp add: check_local_node_config_def local_config_paths_def local_try_def
        local_except_def ContainerdConfig_init_def ContainerdConfig_fields_def capitals_fs_def)
  ultimately show ?thesis by blast
qed

subsection \<open>The binary name\<close>

text \<open>
  What stripping does: it removes a run of stripped characters at each end, and what is
  left neither starts nor ends with a stripped character.
\<close>

lemma strip_where_parts:
  "\<exists>pre suf. s = pre @ strip_where p s @ suf \<and> (\<forall>c \<in> set pre. p c) \<and> (\<forall>c \<in> set suf. p c)"
proof -
  let ?d = "dropWhile p s"
  have "rev (dropWhile p (rev ?d)) @ rev (takeWhile p (rev ?d)) =
        rev (takeWhile p (rev ?d) @ dropWhile p (rev ?d))"
    by (simp only: rev_append)
  also have "\<dots> = rev (rev ?d)" by (simp only: takeWhile_dropWhile_id)
  also have "\<dots> = ?d" by simp
  finally have d: "?d = strip_where p s @ rev (takeWhile p (rev ?d))"
    by (simp add: strip_where_def)
  have "s = takeWhile p s @ ?d" by simp
  with d have "s = takeWhile p s @ strip_where p s @ rev (takeWhile p (rev ?d))" by simp
  moreover have "\<forall>c \<in> set (takeWhile p s). p c" by (auto dest: set_takeWhileD)
  moreover have "\<forall>c \<in> set (rev (takeWhile p (rev ?d))). p c" by (auto dest: set_takeWhileD)
  ultimately show ?thesis by blast
qed

lemma last_dropWhile_eq: "dropWhile p xs \<noteq> [] \<Longrightarrow> last (dropWhile p xs) = last xs"
proof -
  assume ne: "dropWhile p xs \<noteq> []"
  have "last xs = last (takeWhile p xs @ dropWhile p xs)" by simp
  also have "\<dots> = last (dropWhile p xs)" using ne by (rule last_appendR)
  finally show ?thesis by simp
qed

lemma strip_where_ends:
  assumes "strip_where p s \<noteq> []"
  shows "\<not> p (hd (strip_where p s)) \<and> \<not> p (last (strip_where p s))"
proof -
  let ?d = "dropWhile p s"
  let ?r = "dropWhile p (rev ?d)"
  from assms have r: "?r \<noteq> []" by (simp add: strip_where_def)
  have d: "?d \<noteq> []"
  proof
    assume e: "?d = []"
    have "?r = []" unfolding e by simp
    with r show False by contradiction
  qed
  from r have "\<not> p (hd ?r)" by (rule hd_dropWhile)
  then have 1: "\<not> p (last (strip_where p s))" using r by (simp add: strip_where_def last_rev)
  from r have "last ?r = last (rev ?d)" by (rule last_dropWhile_eq)
  also have "\<dots> = hd ?d" using d by (simp add: last_rev)
  finally have "last ?r = hd ?d" .
  moreover from d have "\<not> p (hd ?d)" by (rule hd_dropWhile)
  ultimately have 2: "\<not> p (hd (strip_where p s))" using r by (simp add: strip_where_def hd_rev)
  from 1 2 show ?thesis by simp
qed

lemma strip_where_wrapped:
  assumes a: "\<forall>c \<in> set a. q c" and b: "\<forall>c \<in> set b. q c"
  shows "strip_where q (a @ m @ b) = strip_where q m"
proof -
  from a have 1: "dropWhile q (a @ m @ b) = dropWhile q (m @ b)" by simp
  show ?thesis
  proof (cases "\<forall>c \<in> set m. q c")
    case True
    with b have e1: "dropWhile q (m @ b) = []" by simp
    from True have e2: "dropWhile q m = []" by simp
    show ?thesis unfolding strip_where_def 1 e1 e2 by simp
  next
    case False
    then obtain x where "x \<in> set m" "\<not> q x" by blast
    then have 2: "dropWhile q (m @ b) = dropWhile q m @ b" by (simp add: dropWhile_append1)
    have "dropWhile q (rev b @ rev (dropWhile q m)) = dropWhile q (rev (dropWhile q m))"
      using b by (intro dropWhile_append2) simp
    then show ?thesis unfolding strip_where_def 1 2 rev_append by (rule arg_cong)
  qed
qed

lemma strip_where_absorb:
  assumes "\<And>c. p c \<Longrightarrow> q c"
  shows "strip_where q (strip_where p s) = strip_where q s"
proof -
  from strip_where_parts [of s p] obtain pre suf where
    s: "s = pre @ strip_where p s @ suf" and pre: "\<forall>c \<in> set pre. p c" and suf: "\<forall>c \<in> set suf. p c"
    by blast
  from pre suf assms have "\<forall>c \<in> set pre. q c" "\<forall>c \<in> set suf. q c" by blast+
  then have "strip_where q (pre @ strip_where p s @ suf) = strip_where q (strip_where p s)"
    by (rule strip_where_wrapped)
  with s show ?thesis by simp
qed

lemma strip_where_fixed:
  assumes "m = [] \<or> \<not> p (hd m) \<and> \<not> p (last m)"
  shows "strip_where p m = m"
proof (cases "m = []")
  case True
  then show ?thesis by (simp add: strip_where_def)
next
  case False
  with assms strip_where_sandwich [of "[]" p "[]" m] show ?thesis by simp
qed

text \<open>
  The chain of the extraction loop removes only surrounding whitespace and quotes, and
  leaves no whitespace at either end.
\<close>

lemma strip_binary_path_chain:
  "strip_binary_path rhs =
     py_strip (py_strip_chars [CHR 0x27] (py_strip_chars [CHR 0x22] (py_strip rhs)))"
  by (simp add: strip_binary_path_def)

lemma surrounding_stripped_chain:
  "surrounding_stripped (strip_binary_path rhs) = surrounding_stripped rhs"
  by (simp add: surrounding_stripped_def strip_binary_path_def py_strip_def py_strip_chars_def
      is_quote_def strip_where_absorb)

lemma strip_binary_path_no_space:
  "strip_binary_path rhs = [] \<or>
   \<not> is_space (hd (strip_binary_path rhs)) \<and> \<not> is_space (last (strip_binary_path rhs))"
  using strip_where_ends [of is_space]
  by (auto simp: strip_binary_path_def py_strip_def)

lemma strip_binary_path_all_iff:
  "strip_binary_path rhs = surrounding_stripped rhs \<longleftrightarrow>
     strip_binary_path rhs = [] \<or>
     \<not> is_quote (hd (strip_binary_path rhs)) \<and> \<not> is_quote (last (strip_binary_path rhs))"
proof
  assume eq: "strip_binary_path rhs = surrounding_stripped rhs"
  show "strip_binary_path rhs = [] \<or>
     \<not> is_quote (hd (strip_binary_path rhs)) \<and> \<not> is_quote (last (strip_binary_path rhs))"
    using strip_where_ends [of "\<lambda>c. is_space c \<or> is_quote c" rhs]
    by (auto simp: eq surrounding_stripped_def)
next
  assume "strip_binary_path rhs = [] \<or>
     \<not> is_quote (hd (strip_binary_path rhs)) \<and> \<not> is_quote (last (strip_binary_path rhs))"
  with strip_binary_path_no_space [of rhs]
  have "strip_binary_path rhs = [] \<or>
     \<not> (is_space (hd (strip_binary_path rhs)) \<or> is_quote (hd (strip_binary_path rhs)))
     \<and> \<not> (is_space (last (strip_binary_path rhs)) \<or> is_quote (last (strip_binary_path rhs)))"
    by blast
  then have "strip_where (\<lambda>c. is_space c \<or> is_quote c) (strip_binary_path rhs) =
             strip_binary_path rhs"
    by (rule strip_where_fixed)
  then show "strip_binary_path rhs = surrounding_stripped rhs"
    using surrounding_stripped_chain [of rhs] by (simp add: surrounding_stripped_def)
qed

lemma py_split1_parts:
  "c \<in> set line \<Longrightarrow>
   py_split1 c line = [takeWhile (\<lambda>x. x \<noteq> c) line, tl (dropWhile (\<lambda>x. x \<noteq> c) line)]"
  by (simp add: py_split1_def)

lemma extract_lines_hit:
  assumes "is_binary_name_line line"
  shows "info_binary_name (fst (extract_lines e pod (line # rest) tr)) =
         strip_binary_path (right_hand_side line)"
proof -
  from assms have "CHR ''='' \<in> set line"
    by (simp add: is_binary_name_line_def py_in_char_iff)
  then have parts: "py_split1 CHR ''='' line =
      [takeWhile (\<lambda>x. x \<noteq> CHR ''='') line, right_hand_side line]"
    by (simp add: py_split1_parts right_hand_side_def)
  show ?thesis
    using assms
    by (simp add: parts Let_def split: prod.splits proc_result.splits)
qed

lemma extract_lines_first:
  assumes "\<exists>l \<in> set ls. is_binary_name_line l"
  shows "info_binary_name (fst (extract_lines e pod ls tr)) =
         strip_binary_path (right_hand_side (hd (filter is_binary_name_line ls)))"
  using assms
proof (induction ls)
  case Nil
  then show ?case by simp
next
  case (Cons l ls)
  show ?case
  proof (cases "is_binary_name_line l")
    case True
    then show ?thesis using extract_lines_hit [OF True] by simp
  next
    case False
    with Cons.prems have "\<exists>l \<in> set ls. is_binary_name_line l" by simp
    with Cons.IH False show ?thesis by simp
  qed
qed

text \<open>
  A value wrapped in double quotes or in single quotes, with whitespace around them, is
  taken out of its wrapping, provided it neither starts nor ends with a quote or a
  whitespace character itself.
\<close>

lemma strip_binary_path_quoted:
  assumes ws: "\<forall>c \<in> set ws1. is_space c" "\<forall>c \<in> set ws2. is_space c"
    and q: "q = CHR 0x22 \<or> q = CHR 0x27"
    and quotes: "set q1 \<subseteq> {q}" "set q2 \<subseteq> {q}"
    and path: "path \<noteq> []"
      "\<not> is_space (hd path)" "hd path \<noteq> CHR 0x22" "hd path \<noteq> CHR 0x27"
      "\<not> is_space (last path)" "last path \<noteq> CHR 0x22" "last path \<noteq> CHR 0x27"
  shows "strip_binary_path (ws1 @ q1 @ path @ q2 @ ws2) = path"
proof -
  let ?m = "q1 @ path @ q2"
  have nsq: "\<not> is_space q" using q by (auto simp: is_space_def)
  have m_ne: "?m \<noteq> []" using path(1) by simp
  have hd_m: "hd ?m = (if q1 = [] then hd path else q)"
    using quotes(1) path(1) by (cases q1) auto
  have last_m: "last ?m = (if q2 = [] then last path else q)"
    using quotes(2) path(1) by (cases q2 rule: rev_cases) auto
  have "strip_where is_space (ws1 @ ?m @ ws2) = ?m"
    using ws m_ne hd_m last_m nsq path(2,5) by (intro strip_where_sandwich) auto
  then have s1: "py_strip (ws1 @ q1 @ path @ q2 @ ws2) = ?m"
    by (simp add: py_strip_def)
  have s4: "py_strip path = path"
    using strip_where_sandwich [of "[]" is_space "[]" path] path(1,2,5)
    by (simp add: py_strip_def)
  from q show ?thesis
  proof
    assume dq: "q = CHR 0x22"
    have "strip_where (\<lambda>c. c \<in> set [CHR 0x22]) (q1 @ path @ q2) = path"
      using quotes path dq by (intro strip_where_sandwich) auto
    then have s2: "py_strip_chars [CHR 0x22] ?m = path" by (simp add: py_strip_chars_def)
    have s3: "py_strip_chars [CHR 0x27] path = path"
      using strip_where_sandwich [of "[]" "\<lambda>c. c \<in> set [CHR 0x27]" "[]" path] path
      by (simp add: py_strip_chars_def)
    show ?thesis by (simp add: strip_binary_path_def s1 s2 s3 s4)
  next
    assume sq: "q = CHR 0x27"
    have "strip_where (\<lambda>c. c \<in> set [CHR 0x22]) ([] @ ?m @ []) = ?m"
      using m_ne hd_m last_m sq path by (intro strip_where_sandwich) auto
    then have s2: "py_strip_chars [CHR 0x22] ?m = ?m" by (simp add: py_strip_chars_def)
    have "strip_where (\<lambda>c. c \<in> set [CHR 0x27]) (q1 @ path @ q2) = path"
      using quotes path sq by (intro strip_where_sandwich) auto
    then have s3: "py_strip_chars [CHR 0x27] ?m = path" by (simp add: py_strip_chars_def)
    show ?thesis by (simp add: strip_binary_path_def s1 s2 s3 s4)
  qed
qed

text \<open>
  Claim C8 as stated fails: for the line \<^verbatim>\<open>BinaryName = '"/usr/bin/foo"'\<close> the
  name extracted is \<^verbatim>\<open>"/usr/bin/foo"\<close>, with the double quotes, while the
  right-hand side with its surrounding whitespace and quotes stripped is
  \<^verbatim>\<open>/usr/bin/foo\<close>. The double quotes are looked for before the single quotes
  are removed. The text has both markers, so the remote path does pass it to the
  extraction, and the record of the path holds that name.
\<close>

theorem extracted_binary_name_keeps_inner_quotes:
  "first_binary_name_line nested_quotes_config =
     ''BinaryName = '' @ [CHR 0x27, CHR 0x22] @ ''/usr/bin/foo'' @ [CHR 0x22, CHR 0x27]
   \<and> info_binary_name
         (fst (extract_and_verify_binary quiet_env nested_quotes_config ''gpu-debug-a'' [])) =
       [CHR 0x22] @ ''/usr/bin/foo'' @ [CHR 0x22]
   \<and> surrounding_stripped (right_hand_side (first_binary_name_line nested_quotes_config)) =
       ''/usr/bin/foo''
   \<and> binary_name
         (fst (inspect_config_path nested_quotes_env ''a'' ''gpu-debug-a''
                 ''/host/etc/containerd/config.toml'' [])) =
       [CHR 0x22] @ ''/usr/bin/foo'' @ [CHR 0x22]"
proof -
  have lines: "py_split CHR 0x0A nested_quotes_config =
       [''[nvidia] runtime_type = io.containerd.runc.v2'',
        ''BinaryName = '' @ [CHR 0x27, CHR 0x22] @ ''/usr/bin/foo'' @ [CHR 0x22, CHR 0x27]]"
    by (simp add: nested_quotes_config_def)
  have first: "first_binary_name_line nested_quotes_config =
     ''BinaryName = '' @ [CHR 0x27, CHR 0x22] @ ''/usr/bin/foo'' @ [CHR 0x22, CHR 0x27]"
    by (simp add: lines first_binary_name_line_def is_binary_name_line_def)
  have name: "info_binary_name (fst (extract_lines e ''gpu-debug-a''
          (py_split CHR 0x0A nested_quotes_config) tr)) =
       [CHR 0x22] @ ''/usr/bin/foo'' @ [CHR 0x22]" for e tr
    by (simp add: lines is_binary_name_line_def py_split1_def strip_binary_path_def py_strip_def
        py_strip_chars_def strip_where_def is_space_def Let_def
        split: prod.splits proc_result.splits)
  have spec: "surrounding_stripped (right_hand_side (first_binary_name_line nested_quotes_config)) =
       ''/usr/bin/foo''"
    by (simp add: first right_hand_side_def surrounding_stripped_def strip_where_def
        is_space_def is_quote_def)
  have marked: "remote_nvidia_configured nested_quotes_config"
    by (simp add: remote_nvidia_configured_def nested_quotes_config_def py_lower_def
        lower_char_def)
  have k: "kubectl nested_quotes_env h (ExecTestF p path) = Completed 0 [] []"
    "kubectl nested_quotes_env h (ExecCat p path) = Completed 0 nested_quotes_config []"
    for h p path
    by (simp_all add: nested_quotes_env_def)
  have stored: "binary_name
         (fst (inspect_config_path nested_quotes_env ''a'' ''gpu-debug-a''
                 ''/host/etc/containerd/config.toml'' [])) =
       [CHR 0x22] @ ''/usr/bin/foo'' @ [CHR 0x22]"
    by (simp add: inspect_config_path_def subprocess_run_def k marked Let_def
        extract_and_verify_binary_def case_prod_beta name)
  from first name [of quiet_env "[]"] spec stored show ?thesis
    by (simp add: extract_and_verify_binary_def)
qed

text \<open>
  Claim C8, amended: for every config text with at least one line that contains
  \<^verbatim>\<open>BinaryName\<close> and \<^verbatim>\<open>=\<close>, the binary name extracted is what follows the
  first \<^verbatim>\<open>=\<close> of the first such line, stripped of the whitespace around it, then
  of the double quotes around it, then of the single quotes, then of whitespace again; no
  later line and no answer of the cluster changes it. These four steps remove nothing
  but surrounding whitespace and quotes, and the name is the right-hand side with all
  its surrounding whitespace and quotes stripped exactly when it is empty or neither
  starts nor ends with a quote.
\<close>

theorem extracted_binary_name_first_line:
  assumes "\<exists>line \<in> set (py_split CHR 0x0A content). is_binary_name_line line"
  shows "(let extracted = info_binary_name (fst (extract_and_verify_binary e content pod tr));
              rhs = right_hand_side (first_binary_name_line content)
          in extracted =
               py_strip (py_strip_chars [CHR 0x27] (py_strip_chars [CHR 0x22] (py_strip rhs)))
             \<and> surrounding_stripped extracted = surrounding_stripped rhs
             \<and> (extracted = surrounding_stripped rhs \<longleftrightarrow>
                  extracted = [] \<or> \<not> is_quote (hd extracted) \<and> \<not> is_quote (last extracted)))"
proof -
  let ?rhs = "right_hand_side (first_binary_name_line content)"
  have "info_binary_name (fst (extract_and_verify_binary e content pod tr)) =
        strip_binary_path ?rhs"
    using extract_lines_first [OF assms]
    by (simp add: extract_and_verify_binary_def first_binary_name_line_def)
  then show ?thesis
    using strip_binary_path_chain [of ?rhs] surrounding_stripped_chain [of ?rhs]
      strip_binary_path_all_iff [of ?rhs]
    by (simp add: Let_def)
qed

text \<open>
  The example of the claim: the first binary-name line is
  \<^verbatim>\<open>BinaryName = "/usr/bin/foo"\<close>, a second one names another path, and the
  binary name extracted is \<^verbatim>\<open>/usr/bin/foo\<close>. So it is for a value in single
  quotes, and for one in double quotes between a no-break space and a next-line
  character.
\<close>

theorem extracted_binary_name_example:
  "(\<exists>line \<in> set (py_split CHR 0x0A example_config). is_binary_name_line line)
   \<and> filter is_binary_name_line (py_split CHR 0x0A example_config) =
       [''    BinaryName = '' @ [CHR 0x22] @ ''/usr/bin/foo'' @ [CHR 0x22],
        ''    BinaryName = '' @ [CHR 0x22] @ ''/opt/other'' @ [CHR 0x22]]
   \<and> info_binary_name (fst (extract_and_verify_binary quiet_env example_config ''gpu-debug-a'' [])) =
       ''/usr/bin/foo''
   \<and> surrounding_stripped (right_hand_side (first_binary_name_line example_config)) =
       ''/usr/bin/foo''
   \<and> info_binary_name
         (fst (extract_and_verify_binary quiet_env single_quoted_config ''gpu-debug-a'' [])) =
       ''/usr/bin/foo''
   \<and> info_binary_name
         (fst (extract_and_verify_binary quiet_env no_break_space_config ''gpu-debug-a'' [])) =
       ''/usr/bin/foo''"
proof -
  have lines: "py_split CHR 0x0A example_config =
       [''[plugins.cri.containerd.runtimes.nvidia]'',
        ''  runtime_type = '' @ [CHR 0x22] @ ''io.containerd.runc.v2'' @ [CHR 0x22],
        ''  [plugins.cri.containerd.runtimes.nvidia.options]'',
        ''    BinaryName = '' @ [CHR 0x22] @ ''/usr/bin/foo'' @ [CHR 0x22],
        ''    BinaryName = '' @ [CHR 0x22] @ ''/opt/other'' @ [CHR 0x22]]"
    by (simp add: example_config_def)
  have lines1: "py_split CHR 0x0A single_quoted_config =
       [''[nvidia] runtime_type = io.containerd.runc.v2'',
        ''BinaryName='' @ [CHR 0x27] @ ''/usr/bin/foo'' @ [CHR 0x27]]"
    by (simp add: single_quoted_config_def)
  have lines2: "py_split CHR 0x0A no_break_space_config =
       [''[nvidia] runtime_type = io.containerd.runc.v2'',
        ''BinaryName ='' @ [CHR 0xA0, CHR 0x22] @ ''/usr/bin/foo'' @ [CHR 0x22, CHR 0x85]]"
    by (simp add: no_break_space_config_def)
  have both: "filter is_binary_name_line (py_split CHR 0x0A example_config) =
       [''    BinaryName = '' @ [CHR 0x22] @ ''/usr/bin/foo'' @ [CHR 0x22],
        ''    BinaryName = '' @ [CHR 0x22] @ ''/opt/other'' @ [CHR 0x22]]"
    by (simp add: lines is_binary_name_line_def)
  have hit: "\<exists>line \<in> set (py_split CHR 0x0A example_config). is_binary_name_line line"
    by (simp add: lines is_binary_name_line_def)
  have hit1: "\<exists>line \<in> set (py_split CHR 0x0A single_quoted_config). is_binary_name_line line"
    by (simp add: lines1 is_binary_name_line_def)
  have hit2: "\<exists>line \<in> set (py_split CHR 0x0A no_break_space_config). is_binary_name_line line"
    by (simp add: lines2 is_binary_name_line_def)
  have rhs: "right_hand_side (first_binary_name_line example_config) =
       '' '' @ [CHR 0x22] @ ''/usr/bin/foo'' @ [CHR 0x22]"
    by (simp add: both first_binary_name_line_def right_hand_side_def)
  have rhs1: "right_hand_side (first_binary_name_line single_quoted_config) =
       [CHR 0x27] @ ''/usr/bin/foo'' @ [CHR 0x27]"
    by (simp add: lines1 is_binary_name_line_def first_binary_name_line_def right_hand_side_def)
  have rhs2: "right_hand_side (first_binary_name_line no_break_space_config) =
       [CHR 0xA0, CHR 0x22] @ ''/usr/bin/foo'' @ [CHR 0x22, CHR 0x85]"
    by (simp add: lines2 is_binary_name_line_def first_binary_name_line_def right_hand_side_def)
  have 1: "info_binary_name (fst (extract_and_verify_binary quiet_env example_config ''gpu-debug-a'' [])) =
       ''/usr/bin/foo''"
    using extracted_binary_name_first_line [OF hit, of quiet_env "''gpu-debug-a''" "[]"]
    by (simp add: Let_def rhs py_strip_def py_strip_chars_def strip_where_def is_space_def)
  have 2: "surrounding_stripped (right_hand_side (first_binary_name_line example_config)) =
       ''/usr/bin/foo''"
    by (simp add: rhs surrounding_stripped_def strip_where_def is_space_def is_quote_def)
  have 3: "info_binary_name
         (fst (extract_and_verify_binary quiet_env single_quoted_config ''gpu-debug-a'' [])) =
       ''/usr/bin/foo''"
    using extracted_binary_name_first_line [OF hit1, of quiet_env "''gpu-debug-a''" "[]"]
    by (simp add: Let_def rhs1 py_strip_def py_strip_chars_def strip_where_def is_space_def)
  have 4: "info_binary_name
         (fst (extract_and_verify_binary quiet_env no_break_space_config ''gpu-debug-a'' [])) =
       ''/usr/bin/foo''"
    using extracted_binary_name_first_line [OF hit2, of quiet_env "''gpu-debug-a''" "[]"]
    by (simp add: Let_def rhs2 py_strip_def py_strip_chars_def strip_where_def is_space_def)
  from hit both 1 2 3 4 show ?thesis by blast
qed

subsection \<open>The issue list\<close>

lemma missing_binary_issues_eq:
  "missing_binary_issues n cs issues =
   issues @ map (missing_binary_issue n) (filter binary_missing cs)"
  by (induction cs arbitrary: issues) (simp_all add: binary_missing_def missing_binary_issue_def)

lemma runtime_config_issues_loop_eq:
  "runtime_config_issues_loop rs issues = issues @ concat (map node_issues rs)"
proof (induction rs arbitrary: issues)
  case Nil
  then show ?case by simp
next
  case (Cons r rs)
  obtain n st where r: "r = (n, st)" by (cases r)
  show ?case
    by (simp add: r Cons.IH missing_binary_issues_eq node_issues_def unconfigured_issue_def
        Let_def)
qed

text \<open>
  \<^verbatim>\<open>get_runtime_config_issues\<close> goes through the mapping in its order of iteration
  and holds the issues of each entry together: an entry with an execution error gives
  none; any other entry gives first its unconfigured issue, when no existing record has
  the runtime configured, and then one missing-binary issue for each record with the
  runtime configured, a binary name and no binary.
\<close>

lemma get_runtime_config_issues_by_node:
  "get_runtime_config_issues results = concat (map node_issues results)"
  by (simp add: get_runtime_config_issues_def runtime_config_issues_loop_eq)

text \<open>
  The recommendations of the report sort the same mapping by kind of issue: for every
  mapping and every state of the release, the issues they list are the missing binaries
  of all nodes, then the unconfigured nodes, then the nodes with execution errors, then
  the issue of the release, each list in the order of the mapping.
\<close>

lemma missing_binary_entries_eq:
  "missing_binary_entries n cs entries =
   entries @ map (\<lambda>config. \<lparr>entry_node = n, entry_binary_path = binary_name config,
                               entry_config_path = config_path config\<rparr>)
               (filter binary_missing cs)"
  by (induction cs arbitrary: entries) (simp_all add: binary_missing_def)

lemma sort_nodes_eq:
  "sort_nodes rs acc =
     \<lparr>unconfigured_nodes = unconfigured_nodes acc
          @ map fst (filter (\<lambda>r. \<not> has_error r \<and> \<not> has_nvidia_runtime r) rs),
      error_nodes = error_nodes acc @ map fst (filter has_error rs),
      missing_binary_nodes = missing_binary_nodes acc
          @ concat (map missing_binaries
                      (filter (\<lambda>r. \<not> has_error r \<and> has_nvidia_runtime r) rs))\<rparr>"
proof (induction rs arbitrary: acc)
  case Nil
  then show ?case by simp
next
  case (Cons r rs)
  obtain n st where r: "r = (n, st)" by (cases r)
  have m: "missing_binary_entries n (containerd_configs st) entries =
           entries @ missing_binaries (n, st)" for entries
    by (simp add: missing_binary_entries_eq missing_binaries_def)
  show ?case
    by (simp add: r Cons.IH m has_error_def has_nvidia_runtime_def Let_def)
qed

lemma section_issues_if:
  "concat (map section_issues (if ms \<noteq> [] then [MissingBinarySection ms] else [])) =
     map (\<lambda>m. MissingBinary (entry_node m) (entry_binary_path m)) ms"
  "concat (map section_issues (if ns \<noteq> [] then [UnconfiguredSection ns] else [])) =
     map Unconfigured ns"
  "concat (map section_issues (if ns \<noteq> [] then [ErrorSection ns] else [])) =
     map ExecutionError ns"
  by simp_all

lemma recommended_issues_by_priority:
  "recommended_issues helm results =
     map (\<lambda>m. MissingBinary (entry_node m) (entry_binary_path m))
       (concat (map missing_binaries
                  (filter (\<lambda>r. \<not> has_error r \<and> has_nvidia_runtime r) results)))
     @ map Unconfigured
         (map fst (filter (\<lambda>r. \<not> has_error r \<and> \<not> has_nvidia_runtime r) results))
     @ map ExecutionError (map fst (filter has_error results))
     @ (if helm_release_found helm \<and> toolkit_config_valid helm then []
        else [ReleaseConfiguration])"
proof -
  let ?ms = "concat (map missing_binaries
                  (filter (\<lambda>r. \<not> has_error r \<and> has_nvidia_runtime r) results))"
  let ?us = "map fst (filter (\<lambda>r. \<not> has_error r \<and> \<not> has_nvidia_runtime r) results)"
  let ?es = "map fst (filter has_error results)"
  have "cluster_recommendations helm results =
      (if ?ms \<noteq> [] then [MissingBinarySection ?ms] else [])
      @ (if ?us \<noteq> [] then [UnconfiguredSection ?us] else [])
      @ (if ?es \<noteq> [] then [ErrorSection ?es] else [])
      @ [VerifyToolkitSection]
      @ (if \<not> helm_release_found helm then [InstallReleaseSection]
         else if \<not> toolkit_config_valid helm then [FixReleaseSection]
         else [])
      @ [RestartContainerdSection]"
    unfolding cluster_recommendations_def sort_nodes_eq Let_def
    by (simp only: node_lists.simps append_Nil)
  then have "recommended_issues helm results =
      concat (map section_issues (if ?ms \<noteq> [] then [MissingBinarySection ?ms] else []))
      @ concat (map section_issues (if ?us \<noteq> [] then [UnconfiguredSection ?us] else []))
      @ concat (map section_issues (if ?es \<noteq> [] then [ErrorSection ?es] else []))
      @ (if helm_release_found helm \<and> toolkit_config_valid helm then []
         else [ReleaseConfiguration])"
    unfolding recommended_issues_def by simp
  then show ?thesis unfolding section_issues_if .
qed

lemma sorted_priority_blocks:
  assumes "\<forall>i \<in> set a. priority i = 0" and "\<forall>i \<in> set b. priority i = 1"
    and "\<forall>i \<in> set c. priority i = 2" and "\<forall>i \<in> set d. priority i = 3"
  shows "sorted (map priority (a @ b @ c @ d))"
proof -
  have r: "(\<forall>i \<in> set xs. priority i = k) \<Longrightarrow> map priority xs = replicate (length xs) k"
    for xs k
    by (induction xs) auto
  show ?thesis
    by (auto simp: r [OF assms(1)] r [OF assms(2)] r [OF assms(3)] r [OF assms(4)]
        sorted_append)
qed

lemma recommended_issues_sorted:
  "sorted (map priority (recommended_issues helm results))"
  unfolding recommended_issues_by_priority
  by (rule sorted_priority_blocks) auto

text \<open>
  Claim C5, at the mapping that holds the node \<open>C\<close> (no configuration) before the
  nodes \<open>B\<close> (configured, binary missing) and \<open>A\<close> (configured, binary present):
  \<^verbatim>\<open>get_runtime_config_issues\<close> lists the issue of the unconfigured node before
  the missing-binary issue, while the recommendations of the same report list the
  missing binary first, and the node \<open>A\<close> is in neither list. For a node with an
  execution error and a release that is not installed,
  \<^verbatim>\<open>get_runtime_config_issues\<close> lists nothing, while the recommendations list
  the node and then the release.
\<close>

theorem issue_list_order_diverges:
  "get_runtime_config_issues [(''C'', status_C), (''B'', status_B), (''A'', status_A)] =
     [''Node C: NVIDIA runtime not configured in containerd config'',
      ''Node B: NVIDIA runtime binary not found at /usr/bin/foo'']
   \<and> recommended_issues valid_release [(''C'', status_C), (''B'', status_B), (''A'', status_A)] =
     [MissingBinary ''B'' ''/usr/bin/foo'', Unconfigured ''C'']
   \<and> get_runtime_config_issues [(''E'', status_E)] = []
   \<and> recommended_issues no_release [(''E'', status_E)] =
     [ExecutionError ''E'', ReleaseConfiguration]"
proof -
  have 1: "get_runtime_config_issues [(''C'', status_C), (''B'', status_B), (''A'', status_A)] =
     [''Node C: NVIDIA runtime not configured in containerd config'',
      ''Node B: NVIDIA runtime binary not found at /usr/bin/foo'']"
    by (simp add: get_runtime_config_issues_def status_A_def status_B_def status_C_def
        example_status_def example_records_def example_config_record_def
        absent_config_record_def
        remote_config_paths_def py_truthy_def)
  have 2: "recommended_issues valid_release
             [(''C'', status_C), (''B'', status_B), (''A'', status_A)] =
     [MissingBinary ''B'' ''/usr/bin/foo'', Unconfigured ''C'']"
    by (simp add: recommended_issues_def cluster_recommendations_def valid_release_def
        status_A_def status_B_def status_C_def example_status_def example_records_def
        example_config_record_def
        absent_config_record_def remote_config_paths_def py_truthy_def Let_def)
  have 3: "get_runtime_config_issues [(''E'', status_E)] = []"
    by (simp add: get_runtime_config_issues_def status_E_def py_truthy_def)
  have 4: "recommended_issues no_release [(''E'', status_E)] =
     [ExecutionError ''E'', ReleaseConfiguration]"
    by (simp add: recommended_issues_def cluster_recommendations_def no_release_def
        status_E_def py_truthy_def Let_def)
  from 1 2 3 4 show ?thesis by blast
qed

subsection \<open>Traces\<close>

lemma timeline_append: "timeline (a @ b) = timeline a @ timeline b"
  by (induction a rule: timeline.induct) auto

lemma slept_append: "slept (a @ b) = slept a + slept b"
  by (induction a rule: slept.induct) auto

lemma commands_append: "commands (a @ b) = commands a @ commands b"
  by (induction a rule: commands.induct) auto

lemma extends_refl: "extends P tr tr"
  by (simp add: extends_def)

lemma extends_trans: "extends P tr1 tr2 \<Longrightarrow> extends P tr2 tr3 \<Longrightarrow> extends P tr1 tr3"
  by (auto simp: extends_def)

lemma extends_step: "P ev \<Longrightarrow> extends P tr (tr @ [ev])"
  by (simp add: extends_def)

lemma extends_mono: "extends P tr tr' \<Longrightarrow> (\<And>ev. P ev \<Longrightarrow> Q ev) \<Longrightarrow> extends Q tr tr'"
  by (auto simp: extends_def list_all_iff)

text \<open>
  Every event of provisioning, of config discovery and of the probe concerns the pod
  named by \<open>deploy_pod_name\<close>, and none of them deletes it.
\<close>

lemma poll_ready_extends: "extends (concerns pod) tr (snd (poll_ready e pod n tr))"
proof (induction n arbitrary: tr)
  case 0
  then show ?case by (simp add: extends_refl)
next
  case (Suc n)
  let ?r = "kubectl e tr (GetPhase pod)"
  let ?tr1 = "tr @ [Call (GetPhase pod) ?r]"
  have s1: "extends (concerns pod) tr ?tr1" by (rule extends_step) simp
  show ?case
  proof (cases ?r)
    case (Raised x)
    with s1 show ?thesis by (simp add: subprocess_run_def)
  next
    case (Completed rc out err)
    show ?thesis
    proof (cases "out = ''Running''")
      case False
      have "extends (concerns pod) ?tr1 (?tr1 @ [Sleep 1])" by (rule extends_step) simp
      with s1 have "extends (concerns pod) tr (?tr1 @ [Sleep 1])" by (rule extends_trans)
      from this Suc.IH [of "?tr1 @ [Sleep 1]"]
      have "extends (concerns pod) tr (snd (poll_ready e pod n (?tr1 @ [Sleep 1])))"
        by (rule extends_trans)
      with Completed False show ?thesis by (simp add: subprocess_run_def time_sleep_def)
    next
      case True
      let ?r2 = "kubectl e ?tr1 (GetReady pod)"
      let ?tr2 = "?tr1 @ [Call (GetReady pod) ?r2]"
      have "extends (concerns pod) ?tr1 ?tr2" by (rule extends_step) simp
      with s1 have s2: "extends (concerns pod) tr ?tr2" by (rule extends_trans)
      show ?thesis
      proof (cases ?r2)
        case (Raised x)
        with Completed True s2 show ?thesis by (simp add: subprocess_run_def)
      next
        case c2: (Completed rc2 out2 err2)
        show ?thesis
        proof (cases "out2 = ''true''")
          case True
          with Completed \<open>out = ''Running''\<close> c2 s2 show ?thesis
            by (simp add: subprocess_run_def)
        next
          case False
          have "extends (concerns pod) ?tr2 (?tr2 @ [Sleep 1])" by (rule extends_step) simp
          with s2 have "extends (concerns pod) tr (?tr2 @ [Sleep 1])" by (rule extends_trans)
          from this Suc.IH [of "?tr2 @ [Sleep 1]"]
          have "extends (concerns pod) tr (snd (poll_ready e pod n (?tr2 @ [Sleep 1])))"
            by (rule extends_trans)
          with Completed \<open>out = ''Running''\<close> c2 False show ?thesis
            by (simp add: subprocess_run_def time_sleep_def)
        qed
      qed
    qed
  qed
qed

lemma await_ready_extends: "extends (concerns pod) tr (snd (await_ready e pod tr))"
proof -
  obtain r tr1 where p: "poll_ready e pod 60 tr = (r, tr1)" by (cases "poll_ready e pod 60 tr")
  with poll_ready_extends [of pod tr e 60] have s1: "extends (concerns pod) tr tr1" by simp
  have "extends (concerns pod) tr1 (tr1 @ [Call (DescribePod pod) (kubectl e tr1 (DescribePod pod))])"
    by (rule extends_step) simp
  with s1 have s2: "extends (concerns pod) tr
      (tr1 @ [Call (DescribePod pod) (kubectl e tr1 (DescribePod pod))])"
    by (rule extends_trans)
  show ?thesis
    using p s1 s2
    by (auto simp: await_ready_def subprocess_run_def split: sum.splits bool.splits proc_result.splits)
qed

lemma await_ready_pod: "await_ready e pod tr = (Inr (True, p), tr') \<Longrightarrow> p = pod"
  by (auto simp: await_ready_def split: prod.splits sum.splits bool.splits proc_result.splits if_splits)

lemma deploy_debug_pod_extends:
  "extends (concerns (deploy_pod_name nodename)) tr (snd (deploy_debug_pod e nodename tr))"
proof -
  let ?pod = "deploy_pod_name nodename"
  let ?r = "kubectl e tr (GetPod ?pod)"
  let ?tr1 = "tr @ [Call (GetPod ?pod) ?r]"
  let ?spec = "create_debug_pod_spec nodename"
  let ?r2 = "kubectl e ?tr1 (ApplyPod ?spec)"
  let ?tr2 = "?tr1 @ [Call (ApplyPod ?spec) ?r2]"
  have s1: "extends (concerns ?pod) tr ?tr1" by (rule extends_step) simp
  have "concerns ?pod (Call (ApplyPod ?spec) ?r2)"
    by (simp add: create_debug_pod_spec_def spec_pod_name_def deploy_pod_name_def)
  then have "extends (concerns ?pod) ?tr1 ?tr2" by (rule extends_step)
  with s1 have s2: "extends (concerns ?pod) tr ?tr2" by (rule extends_trans)
  from s2 await_ready_extends [of ?pod ?tr2 e]
  have s3: "extends (concerns ?pod) tr (snd (await_ready e ?pod ?tr2))" by (rule extends_trans)
  show ?thesis
    using s1 s2 s3
    by (auto simp: deploy_debug_pod_def subprocess_run_def Let_def
        split: proc_result.splits prod.splits sum.splits)
qed

lemma deploy_debug_pod_name:
  "deploy_debug_pod e nodename tr = ((True, p), tr') \<Longrightarrow> p = deploy_pod_name nodename"
  by (auto simp: deploy_debug_pod_def subprocess_run_def Let_def
      split: proc_result.splits prod.splits sum.splits if_splits dest: await_ready_pod)

lemma extract_lines_extends: "extends (concerns pod) tr (snd (extract_lines e pod ls tr))"
proof (induction ls)
  case Nil
  then show ?case by (simp add: extends_refl)
next
  case (Cons l ls)
  have "extends (concerns pod) tr (tr @ [Call (ExecTestF pod p) r])" for p r
    by (rule extends_step) simp
  with Cons show ?case
    by (auto simp: subprocess_run_def Let_def split: proc_result.splits)
qed

lemma inspect_config_path_extends:
  "extends (concerns pod) tr (snd (inspect_config_path e nodename pod path tr))"
proof -
  have s1: "extends (concerns pod) tr (tr @ [Call (ExecTestF pod path) r])" for r
    by (rule extends_step) simp
  have s2: "extends (concerns pod) tr
      (tr @ [Call (ExecTestF pod path) r, Call (ExecCat pod path) r2])" for r r2
  proof -
    have "extends (concerns pod) (tr @ [Call (ExecTestF pod path) r])
       ((tr @ [Call (ExecTestF pod path) r]) @ [Call (ExecCat pod path) r2])"
      by (rule extends_step) simp
    with s1 [of r] show ?thesis by (auto dest: extends_trans)
  qed
  have s3: "extends (concerns pod) tr t"
    if "extract_lines e pod ls
          (tr @ [Call (ExecTestF pod path) r, Call (ExecCat pod path) r2]) = (i, t)"
    for ls r r2 i t
  proof -
    from that extract_lines_extends [of pod
        "tr @ [Call (ExecTestF pod path) r, Call (ExecCat pod path) r2]" e ls]
    have "extends (concerns pod)
        (tr @ [Call (ExecTestF pod path) r, Call (ExecCat pod path) r2]) t" by simp
    with s2 [of r r2] show ?thesis by (rule extends_trans)
  qed
  show ?thesis
    using s1 s2 s3
    by (auto simp: inspect_config_path_def subprocess_run_def Let_def
        extract_and_verify_binary_def split: proc_result.splits prod.splits)
qed

lemma inspect_config_paths_extends:
  "extends (concerns pod) tr (snd (inspect_config_paths e nodename pod paths tr))"
proof (induction paths arbitrary: tr)
  case Nil
  then show ?case by (simp add: extends_refl)
next
  case (Cons p ps)
  obtain c tr1 where c: "inspect_config_path e nodename pod p tr = (c, tr1)"
    by (cases "inspect_config_path e nodename pod p tr")
  obtain cs tr2 where cs: "inspect_config_paths e nodename pod ps tr1 = (cs, tr2)"
    by (cases "inspect_config_paths e nodename pod ps tr1")
  from c inspect_config_path_extends [of pod tr e nodename p]
  have "extends (concerns pod) tr tr1" by simp
  moreover from cs Cons.IH [of tr1] have "extends (concerns pod) tr1 tr2" by simp
  ultimately have "extends (concerns pod) tr tr2" by (rule extends_trans)
  with c cs show ?case by simp
qed

lemma run_gpu_detection_extends:
  "extends (concerns pod) tr (snd (run_gpu_detection_on_node e nodename pod tr))"
proof -
  have "extends (concerns pod) tr (tr @ [Call (ExecDetection pod) r])" for r
    by (rule extends_step) simp
  then show ?thesis
    by (auto simp: run_gpu_detection_on_node_def subprocess_run_def
        split: proc_result.splits py_exception.splits)
qed

lemma analyze_single_node_extends:
  "extends (concerns (deploy_pod_name (name node))) tr (snd (analyze_single_node e node tr))"
proof -
  let ?pod = "deploy_pod_name (name node)"
  obtain ok p tr1 where d: "deploy_debug_pod e (name node) tr = ((ok, p), tr1)"
    by (cases "deploy_debug_pod e (name node) tr") auto
  from d deploy_debug_pod_extends [of "name node" tr e]
  have s1: "extends (concerns ?pod) tr tr1" by simp
  consider x where "py_print e (AnalyzingNode (name node)) tr = Some x"
    | "py_print e (AnalyzingNode (name node)) tr = None" "\<not> ok"
    | "py_print e (AnalyzingNode (name node)) tr = None" "ok"
    by (cases "py_print e (AnalyzingNode (name node)) tr") auto
  then show ?thesis
  proof cases
    case 1
    then show ?thesis
      by (simp add: analyze_single_node_def analyze_single_node_with_def extends_refl)
  next
    case 2
    with d s1 show ?thesis by (simp add: analyze_single_node_def analyze_single_node_with_def)
  next
    case 3
    then have True: ok and pr: "py_print e (AnalyzingNode (name node)) tr = None" by simp_all
    with d have p: "p = ?pod" by (auto dest: deploy_debug_pod_name)
    obtain cs tr2 where c: "get_containerd_config_from_node e (name node) ?pod tr1 = (cs, tr2)"
      by (cases "get_containerd_config_from_node e (name node) ?pod tr1")
    obtain sy tr3 where g: "run_gpu_detection_on_node e (name node) ?pod tr2 = (sy, tr3)"
      by (cases "run_gpu_detection_on_node e (name node) ?pod tr2")
    from c inspect_config_paths_extends [of ?pod tr1 e "name node" remote_config_paths]
    have "extends (concerns ?pod) tr1 tr2" by (simp add: get_containerd_config_from_node_def)
    with s1 have s2: "extends (concerns ?pod) tr tr2" by (rule extends_trans)
    from g run_gpu_detection_extends [of ?pod tr2 e "name node"]
    have "extends (concerns ?pod) tr2 tr3" by simp
    with s2 have "extends (concerns ?pod) tr tr3" by (rule extends_trans)
    with d True p c g pr show ?thesis
      by (simp add: analyze_single_node_def analyze_single_node_with_def)
  qed
qed

text \<open>The pods of the cluster along a trace.\<close>

lemma cluster_pods_append:
  "cluster_pods (tr @ evs) pods = fold cluster_step evs (cluster_pods tr pods)"
  by (simp add: cluster_pods_def)

lemma cluster_step_concerns:
  "concerns pod ev \<Longrightarrow> pods \<subseteq> cluster_step ev pods \<and> cluster_step ev pods \<subseteq> insert pod pods"
  by (cases "(ev, pods)" rule: cluster_step.cases) (auto split: if_splits)

lemma fold_cluster_step_concerns_set:
  "list_all (\<lambda>ev. \<exists>p \<in> S. concerns p ev) evs \<Longrightarrow> fold cluster_step evs pods \<subseteq> S \<union> pods"
proof (induction evs arbitrary: pods)
  case Nil
  then show ?case by auto
next
  case (Cons ev evs)
  from Cons.prems obtain p where p: "p \<in> S" "concerns p ev"
    and evs: "list_all (\<lambda>ev. \<exists>p \<in> S. concerns p ev) evs" by auto
  from cluster_step_concerns [OF p(2), of pods] p(1)
  have "cluster_step ev pods \<subseteq> S \<union> pods" by auto
  with Cons.IH [OF evs, of "cluster_step ev pods"] show ?case by auto
qed

lemma deploy_cleanup_name: "deploy_pod_name (name n) = cleanup_pod_name n"
  by (simp add: deploy_pod_name_def cleanup_pod_name_def)

subsection \<open>The identity of the inspection pod\<close>

text \<open>
  Claim C10: the name of a node's inspection pod is \<^verbatim>\<open>gpu-debug-\<close> followed by
  the node's name with every \<^verbatim>\<open>.\<close> replaced by \<^verbatim>\<open>-\<close>, a function of
  the node's name alone. The pod specification, the provisioning and the cleanup sweep
  compute the same name: every command of a node's worker names this pod, and the sweep's
  command for the node deletes the pod that the node's specification names.
\<close>

theorem pod_identity_one_derivation:
  "spec_pod_name (name node) =
     ''gpu-debug-'' @ map (\<lambda>c. if c = CHR ''.'' then CHR ''-'' else c) (name node)
   \<and> deploy_pod_name (name node) = spec_pod_name (name node)
   \<and> cleanup_pod_name node = spec_pod_name (name node)
   \<and> metadata_name (create_debug_pod_spec (name node)) = spec_pod_name (name node)
   \<and> extends (concerns (spec_pod_name (name node))) tr (snd (analyze_single_node e node tr))
   \<and> commands (cleanup_debug_pods e [node] []) =
       [DeletePod (metadata_name (create_debug_pod_spec (name node)))]"
proof -
  have same: "deploy_pod_name (name node) = spec_pod_name (name node)"
    by (simp add: spec_pod_name_def deploy_pod_name_def)
  have "extends (concerns (spec_pod_name (name node))) tr (snd (analyze_single_node e node tr))"
    using analyze_single_node_extends [of node tr e] by (simp add: same)
  moreover have "commands (cleanup_debug_pods e [node] []) =
       [DeletePod (metadata_name (create_debug_pod_spec (name node)))]"
    by (simp add: spec_pod_name_def cleanup_pod_name_def create_debug_pod_spec_def
        subprocess_run_def split: proc_result.splits)
  moreover have "spec_pod_name (name node) =
     ''gpu-debug-'' @ map (\<lambda>c. if c = CHR ''.'' then CHR ''-'' else c) (name node)"
    by (simp add: spec_pod_name_def debug_pod_prefix_def replace_char_def)
  moreover have "cleanup_pod_name node = spec_pod_name (name node)"
    by (simp add: spec_pod_name_def cleanup_pod_name_def)
  moreover have "metadata_name (create_debug_pod_spec (name node)) = spec_pod_name (name node)"
    by (simp add: create_debug_pod_spec_def)
  ultimately show ?thesis using same by blast
qed

subsection \<open>The readiness wait\<close>

lemma poll_ready_never:
  assumes "never_ready e pod"
  shows "\<exists>evs. poll_ready e pod n tr = (Inr False, tr @ evs)
           \<and> timeline evs = concat (replicate n [Poll, Wait 1]) \<and> slept evs = n"
proof (induction n arbitrary: tr)
  case 0
  then show ?case by simp
next
  case (Suc n)
  from assms obtain rc out err where
    ph: "kubectl e tr (GetPhase pod) = Completed rc out err"
    and rd: "out = ''Running'' \<longrightarrow>
          (\<exists>rc2 out2 err2.
             kubectl e (tr @ [Call (GetPhase pod) (Completed rc out err)]) (GetReady pod) =
               Completed rc2 out2 err2 \<and> out2 \<noteq> ''true'')"
    unfolding never_ready_def by blast
  show ?case
  proof (cases "out = ''Running''")
    case True
    with rd obtain rc2 out2 err2 where
      r2: "kubectl e (tr @ [Call (GetPhase pod) (Completed rc out err)]) (GetReady pod) =
               Completed rc2 out2 err2" and nt: "out2 \<noteq> ''true''" by blast
    let ?round = "[Call (GetPhase pod) (Completed rc out err),
                   Call (GetReady pod) (Completed rc2 out2 err2), Sleep 1]"
    from Suc.IH [of "tr @ ?round"] obtain evs where
      evs: "poll_ready e pod n (tr @ ?round) = (Inr False, (tr @ ?round) @ evs)"
        "timeline evs = concat (replicate n [Poll, Wait 1])" "slept evs = n" by blast
    have "poll_ready e pod (Suc n) tr = (Inr False, tr @ (?round @ evs))"
      using ph r2 nt True evs(1) by (simp add: subprocess_run_def time_sleep_def)
    moreover have "timeline (?round @ evs) = concat (replicate (Suc n) [Poll, Wait 1])"
      using evs(2) by simp
    moreover have "slept (?round @ evs) = Suc n" using evs(3) by simp
    ultimately show ?thesis by blast
  next
    case False
    let ?round = "[Call (GetPhase pod) (Completed rc out err), Sleep 1]"
    from Suc.IH [of "tr @ ?round"] obtain evs where
      evs: "poll_ready e pod n (tr @ ?round) = (Inr False, (tr @ ?round) @ evs)"
        "timeline evs = concat (replicate n [Poll, Wait 1])" "slept evs = n" by blast
    have "poll_ready e pod (Suc n) tr = (Inr False, tr @ (?round @ evs))"
      using ph False evs(1) by (simp add: subprocess_run_def time_sleep_def)
    moreover have "timeline (?round @ evs) = concat (replicate (Suc n) [Poll, Wait 1])"
      using evs(2) by simp
    moreover have "slept (?round @ evs) = Suc n" using evs(3) by simp
    ultimately show ?thesis by blast
  qed
qed

lemma await_ready_never:
  assumes "never_ready e pod"
    and "\<forall>h. \<exists>rc out err. kubectl e h (DescribePod pod) = Completed rc out err"
  shows "\<exists>evs rc details err.
           await_ready e pod tr =
             (Inr (False, ''Pod failed to start within timeout. Details: '' @ py_last_n 500 details),
              tr @ evs @ [Call (DescribePod pod) (Completed rc details err)])
           \<and> kubectl e (tr @ evs) (DescribePod pod) = Completed rc details err
           \<and> timeline evs = concat (replicate 60 [Poll, Wait 1]) \<and> slept evs = 60"
proof -
  from poll_ready_never [OF assms(1), of 60 tr] obtain evs where
    evs: "poll_ready e pod 60 tr = (Inr False, tr @ evs)"
      "timeline evs = concat (replicate 60 [Poll, Wait 1])" "slept evs = 60" by blast
  from assms(2) obtain rc details err where
    d: "kubectl e (tr @ evs) (DescribePod pod) = Completed rc details err" by blast
  have "await_ready e pod tr =
             (Inr (False, ''Pod failed to start within timeout. Details: '' @ py_last_n 500 details),
              tr @ evs @ [Call (DescribePod pod) (Completed rc details err)])"
    using evs(1) d by (simp add: await_ready_def subprocess_run_def)
  with d evs(2,3) show ?thesis by blast
qed

text \<open>
  A poll that raises is another matter: the wait ends at once with the exception, which
  the handler of \<^verbatim>\<open>deploy_debug_pod\<close> turns into a failure. The premise of the
  claim is read as: the pod is polled, and every poll shows it not ready.
\<close>

lemma await_ready_exception:
  assumes "kubectl e tr (GetPhase pod) = Raised x"
  shows "await_ready e pod tr = (Inl x, tr @ [Call (GetPhase pod) (Raised x)])"
proof -
  have "poll_ready e pod (Suc n) tr = (Inl x, tr @ [Call (GetPhase pod) (Raised x)])" for n
    using assms by (simp add: subprocess_run_def)
  from this [of 59] have "poll_ready e pod 60 tr = (Inl x, tr @ [Call (GetPhase pod) (Raised x)])"
    by simp
  then show ?thesis by (simp add: await_ready_def)
qed

text \<open>
  Claim C6: for a node whose inspection pod is created and never reaches the phase
  \<^verbatim>\<open>Running\<close> with its container ready, \<^verbatim>\<open>deploy_debug_pod\<close> polls the phase
  60 times, sleeps 1 second after each poll, then asks kubectl to describe the pod and
  returns a failure whose message ends with the last 500 characters of that description.
  The failure comes after the 60 seconds of sleep and not before, and the number of polls
  is bounded by 60.
\<close>

theorem readiness_wait_times_out:
  assumes absent: "kubectl e tr (GetPod (deploy_pod_name nodename)) = Completed rc0 out0 err0"
      "rc0 \<noteq> 0"
    and created: "\<forall>h. \<exists>out err.
        kubectl e h (ApplyPod (create_debug_pod_spec nodename)) = Completed 0 out err"
    and unready: "never_ready e (deploy_pod_name nodename)"
    and described: "\<forall>h. \<exists>rc out err.
        kubectl e h (DescribePod (deploy_pod_name nodename)) = Completed rc out err"
  shows "\<exists>evs rc details err.
           deploy_debug_pod e nodename tr =
             ((False, ''Pod failed to start within timeout. Details: '' @ py_last_n 500 details),
              tr @ evs @ [Call (DescribePod (deploy_pod_name nodename)) (Completed rc details err)])
           \<and> kubectl e (tr @ evs) (DescribePod (deploy_pod_name nodename)) = Completed rc details err
           \<and> timeline evs = concat (replicate 60 [Poll, Wait 1])
           \<and> slept evs = 60"
proof -
  let ?pod = "deploy_pod_name nodename"
  let ?tr1 = "tr @ [Call (GetPod ?pod) (Completed rc0 out0 err0)]"
  from created obtain out err where
    ap: "kubectl e ?tr1 (ApplyPod (create_debug_pod_spec nodename)) = Completed 0 out err"
    by blast
  let ?pre = "[Call (GetPod ?pod) (Completed rc0 out0 err0),
               Call (ApplyPod (create_debug_pod_spec nodename)) (Completed 0 out err)]"
  from await_ready_never [OF unready described, of "tr @ ?pre"]
  obtain evs rc details err' where
    w: "await_ready e ?pod (tr @ ?pre) =
          (Inr (False, ''Pod failed to start within timeout. Details: '' @ py_last_n 500 details),
           (tr @ ?pre) @ evs @ [Call (DescribePod ?pod) (Completed rc details err')])"
      "kubectl e ((tr @ ?pre) @ evs) (DescribePod ?pod) = Completed rc details err'"
      "timeline evs = concat (replicate 60 [Poll, Wait 1])" "slept evs = 60"
    by blast
  have "deploy_debug_pod e nodename tr =
      ((False, ''Pod failed to start within timeout. Details: '' @ py_last_n 500 details),
       tr @ (?pre @ evs) @ [Call (DescribePod ?pod) (Completed rc details err')])"
    using absent ap w(1) by (simp add: deploy_debug_pod_def subprocess_run_def Let_def)
  moreover have "kubectl e (tr @ (?pre @ evs)) (DescribePod ?pod) = Completed rc details err'"
    using w(2) by simp
  moreover have "timeline (?pre @ evs) = concat (replicate 60 [Poll, Wait 1])"
    using w(3) by simp
  moreover have "slept (?pre @ evs) = 60" using w(4) by simp
  ultimately show ?thesis by blast
qed

text \<open>A pod that stays \<^verbatim>\<open>Pending\<close>: the failure, after 60 polls and 60 seconds.\<close>

theorem readiness_wait_witness:
  "fst (deploy_debug_pod pending_env ''node-a'' []) =
     (False, ''Pod failed to start within timeout. Details: Warning FailedScheduling'')
   \<and> slept (snd (deploy_debug_pod pending_env ''node-a'' [])) = 60
   \<and> timeline (snd (deploy_debug_pod pending_env ''node-a'' [])) =
       concat (replicate 60 [Poll, Wait 1])"
proof -
  have 1: "kubectl pending_env [] (GetPod (deploy_pod_name ''node-a'')) = Completed 1 [] ''NotFound''"
    by (simp add: pending_env_def)
  have 2: "\<forall>h. \<exists>out err.
      kubectl pending_env h (ApplyPod (create_debug_pod_spec ''node-a'')) = Completed 0 out err"
    by (simp add: pending_env_def)
  have 3: "never_ready pending_env (deploy_pod_name ''node-a'')"
    by (simp add: never_ready_def pending_env_def)
  have 4: "\<forall>h. \<exists>rc out err.
      kubectl pending_env h (DescribePod (deploy_pod_name ''node-a'')) = Completed rc out err"
    by (simp add: pending_env_def)
  from readiness_wait_times_out [OF 1 _ 2 3 4] obtain evs rc details err where
    r: "deploy_debug_pod pending_env ''node-a'' [] =
             ((False, ''Pod failed to start within timeout. Details: '' @ py_last_n 500 details),
              [] @ evs @ [Call (DescribePod (deploy_pod_name ''node-a'')) (Completed rc details err)])"
      "kubectl pending_env ([] @ evs) (DescribePod (deploy_pod_name ''node-a'')) = Completed rc details err"
      "timeline evs = concat (replicate 60 [Poll, Wait 1])" "slept evs = 60"
    by auto
  from r(2) have details: "details = ''Warning FailedScheduling''"
    by (simp add: pending_env_def)
  show ?thesis
    using r(3,4) by (simp add: r(1) details py_last_n_def timeline_append slept_append)
qed

subsection \<open>The worker\<close>

lemma analyze_single_node_with_raises:
  assumes "print_message (AnalyzingNode (name node)) tr = Some x"
  shows "analyze_single_node_with print_message deploy get_config run_detection node tr =
         (Inl x, tr)"
  using assms by (simp add: analyze_single_node_with_def)

lemma analyze_single_node_with_outcome:
  assumes pr: "print_message (AnalyzingNode (name node)) tr = None"
  shows "\<exists>st tr'.
      analyze_single_node_with print_message deploy get_config run_detection node tr =
        (Inr st, tr')
      \<and> node_name st = name node
      \<and> (\<forall>msg tr1. deploy (name node) tr = ((False, msg), tr1) \<longrightarrow>
            st = \<lparr>node_name = name node, containerd_configs = [], gpu_failure_symptoms = None,
                  debug_pod_deployed = False, execution_error = Some msg\<rparr>
            \<and> tr' = tr1)
      \<and> (\<forall>pod tr1 x tr2.
            deploy (name node) tr = ((True, pod), tr1)
            \<and> get_config (name node) pod tr1 = (Inl x, tr2) \<longrightarrow>
            st = \<lparr>node_name = name node, containerd_configs = [], gpu_failure_symptoms = None,
                  debug_pod_deployed = True,
                  execution_error = Some (''Analysis failed: '' @ exc_str x)\<rparr>
            \<and> tr' = tr2)
      \<and> (\<forall>pod tr1 configs tr2 x tr3.
            deploy (name node) tr = ((True, pod), tr1)
            \<and> get_config (name node) pod tr1 = (Inr configs, tr2)
            \<and> run_detection (name node) pod tr2 = (Inl x, tr3) \<longrightarrow>
            st = \<lparr>node_name = name node, containerd_configs = [], gpu_failure_symptoms = None,
                  debug_pod_deployed = True,
                  execution_error = Some (''Analysis failed: '' @ exc_str x)\<rparr>
            \<and> tr' = tr3)
      \<and> (\<forall>pod tr1 configs tr2 symptoms tr3.
            deploy (name node) tr = ((True, pod), tr1)
            \<and> get_config (name node) pod tr1 = (Inr configs, tr2)
            \<and> run_detection (name node) pod tr2 = (Inr symptoms, tr3) \<longrightarrow>
            st = \<lparr>node_name = name node, containerd_configs = configs,
                  gpu_failure_symptoms = Some symptoms, debug_pod_deployed = True,
                  execution_error = None\<rparr>
            \<and> tr' = tr3)"
proof -
  obtain ok p tr1 where d: "deploy (name node) tr = ((ok, p), tr1)"
    by (cases "deploy (name node) tr") auto
  show ?thesis
  proof (cases ok)
    case False
    with d pr show ?thesis by (simp add: analyze_single_node_with_def)
  next
    case True
    obtain c tr2 where c: "get_config (name node) p tr1 = (c, tr2)"
      by (cases "get_config (name node) p tr1")
    show ?thesis
    proof (cases c)
      case (Inl x)
      with d pr True c show ?thesis by (simp add: analyze_single_node_with_def)
    next
      case (Inr configs)
      obtain g tr3 where g: "run_detection (name node) p tr2 = (g, tr3)"
        by (cases "run_detection (name node) p tr2")
      with d pr True c Inr show ?thesis
        by (cases g) (simp_all add: analyze_single_node_with_def)
    qed
  qed
qed

text \<open>The method of the source: what it returns after each outcome of provisioning.\<close>

lemma analyze_single_node_raises:
  assumes "stdout e tr (AnalyzingNode (name node)) = Some x"
  shows "analyze_single_node e node tr = (Inl x, tr)"
  using assms by (simp add: analyze_single_node_def analyze_single_node_with_def py_print_def)

lemma analyze_single_node_failed_provisioning:
  assumes "stdout e tr (AnalyzingNode (name node)) = None"
    and "deploy_debug_pod e (name node) tr = ((False, msg), tr1)"
  shows "analyze_single_node e node tr =
         (Inr \<lparr>node_name = name node, containerd_configs = [], gpu_failure_symptoms = None,
                debug_pod_deployed = False, execution_error = Some msg\<rparr>, tr1)"
  using assms by (simp add: analyze_single_node_def analyze_single_node_with_def py_print_def)

lemma analyze_single_node_provisioned:
  assumes "stdout e tr (AnalyzingNode (name node)) = None"
    and "deploy_debug_pod e (name node) tr = ((True, pod), tr1)"
    and "get_containerd_config_from_node e (name node) pod tr1 = (configs, tr2)"
    and "run_gpu_detection_on_node e (name node) pod tr2 = (symptoms, tr3)"
  shows "analyze_single_node e node tr =
         (Inr \<lparr>node_name = name node, containerd_configs = configs,
                gpu_failure_symptoms = Some symptoms, debug_pod_deployed = True,
                execution_error = None\<rparr>, tr3)"
  using assms by (simp add: analyze_single_node_def analyze_single_node_with_def py_print_def)

lemma analyze_single_node_returns:
  assumes "stdout e tr (AnalyzingNode (name node)) = None"
  shows "\<exists>st tr'. analyze_single_node e node tr = (Inr st, tr') \<and> node_name st = name node"
proof -
  from assms have p: "py_print e (AnalyzingNode (name node)) tr = None"
    by (simp add: py_print_def)
  have "\<exists>st tr'. analyze_single_node_with (py_print e) d g r node tr = (Inr st, tr')
                 \<and> node_name st = name node"
    for d g r
    using analyze_single_node_with_outcome [of "py_print e" node tr d g r] p by blast
  then show ?thesis unfolding analyze_single_node_def by blast
qed

text \<open>
  Claim C2 as stated fails: the first statement of the worker is a \<^verbatim>\<open>print\<close>
  outside every handler. On a standard output that cannot encode the message the worker
  raises, before it has asked the cluster anything.
\<close>

theorem analyze_single_node_raises_when_print_fails:
  "stdout ascii_stdout_env [] (AnalyzingNode (name node_a)) = Some ascii_codec_error
   \<and> analyze_single_node ascii_stdout_env node_a [] = (Inl ascii_codec_error, [])"
  by (simp add: analyze_single_node_def analyze_single_node_with_def py_print_def
      ascii_stdout_env_def)

text \<open>
  Claim C2, amended: unless that first \<^verbatim>\<open>print\<close> raises, the worker returns a
  status for the node and does not raise, whatever provisioning and the two steps inside
  its \<^verbatim>\<open>try\<close> block do. If provisioning fails, the status has the failure message
  as its execution error, no config record and the pod marked as not deployed, and the
  trace ends where provisioning ended: no further step is run. If config discovery or
  the probe raises, the exception becomes the execution error
  \<^verbatim>\<open>Analysis failed: ...\<close> of the status returned, with no config record. If both
  return, the status holds their results and no error. If the first \<^verbatim>\<open>print\<close>
  raises, its exception leaves the worker and nothing else is done. The first five
  statements are about the body of the method with any four calls in it, the last four
  about the method with the analyzer's own.
\<close>

theorem analyze_single_node_returns_once_printed:
  "(\<forall>x. print_message (AnalyzingNode (name node)) tr = Some x \<longrightarrow>
        analyze_single_node_with print_message deploy get_config run_detection node tr =
          (Inl x, tr))
   \<and> (print_message (AnalyzingNode (name node)) tr = None \<longrightarrow>
        (\<exists>st tr'.
           analyze_single_node_with print_message deploy get_config run_detection node tr =
             (Inr st, tr')
           \<and> node_name st = name node
           \<and> (\<forall>msg tr1. deploy (name node) tr = ((False, msg), tr1) \<longrightarrow>
                 st = \<lparr>node_name = name node, containerd_configs = [],
                       gpu_failure_symptoms = None, debug_pod_deployed = False,
                       execution_error = Some msg\<rparr>
                 \<and> tr' = tr1)
           \<and> (\<forall>pod tr1 x tr2.
                 deploy (name node) tr = ((True, pod), tr1)
                 \<and> get_config (name node) pod tr1 = (Inl x, tr2) \<longrightarrow>
                 st = \<lparr>node_name = name node, containerd_configs = [],
                       gpu_failure_symptoms = None, debug_pod_deployed = True,
                       execution_error = Some (''Analysis failed: '' @ exc_str x)\<rparr>
                 \<and> tr' = tr2)
           \<and> (\<forall>pod tr1 configs tr2 x tr3.
                 deploy (name node) tr = ((True, pod), tr1)
                 \<and> get_config (name node) pod tr1 = (Inr configs, tr2)
                 \<and> run_detection (name node) pod tr2 = (Inl x, tr3) \<longrightarrow>
                 st = \<lparr>node_name = name node, containerd_configs = [],
                       gpu_failure_symptoms = None, debug_pod_deployed = True,
                       execution_error = Some (''Analysis failed: '' @ exc_str x)\<rparr>
                 \<and> tr' = tr3)
           \<and> (\<forall>pod tr1 configs tr2 symptoms tr3.
                 deploy (name node) tr = ((True, pod), tr1)
                 \<and> get_config (name node) pod tr1 = (Inr configs, tr2)
                 \<and> run_detection (name node) pod tr2 = (Inr symptoms, tr3) \<longrightarrow>
                 st = \<lparr>node_name = name node, containerd_configs = configs,
                       gpu_failure_symptoms = Some symptoms, debug_pod_deployed = True,
                       execution_error = None\<rparr>
                 \<and> tr' = tr3)))
   \<and> (\<forall>x. stdout e tr (AnalyzingNode (name node)) = Some x \<longrightarrow>
          analyze_single_node e node tr = (Inl x, tr))
   \<and> (stdout e tr (AnalyzingNode (name node)) = None \<longrightarrow>
        (\<exists>st tr'. analyze_single_node e node tr = (Inr st, tr') \<and> node_name st = name node)
        \<and> (\<forall>msg tr1.
              deploy_debug_pod e (name node) tr = ((False, msg), tr1) \<longrightarrow>
              analyze_single_node e node tr =
                (Inr \<lparr>node_name = name node, containerd_configs = [],
                       gpu_failure_symptoms = None, debug_pod_deployed = False,
                       execution_error = Some msg\<rparr>, tr1))
        \<and> (\<forall>pod tr1 configs tr2 symptoms tr3.
              deploy_debug_pod e (name node) tr = ((True, pod), tr1)
              \<and> get_containerd_config_from_node e (name node) pod tr1 = (configs, tr2)
              \<and> run_gpu_detection_on_node e (name node) pod tr2 = (symptoms, tr3) \<longrightarrow>
              analyze_single_node e node tr =
                (Inr \<lparr>node_name = name node, containerd_configs = configs,
                       gpu_failure_symptoms = Some symptoms, debug_pod_deployed = True,
                       execution_error = None\<rparr>, tr3)))"
proof -
  have 1: "\<forall>x. print_message (AnalyzingNode (name node)) tr = Some x \<longrightarrow>
        analyze_single_node_with print_message deploy get_config run_detection node tr =
          (Inl x, tr)"
    by (simp add: analyze_single_node_with_raises)
  note 2 = impI [OF analyze_single_node_with_outcome
                      [of print_message node tr deploy get_config run_detection]]
  have 3: "\<forall>x. stdout e tr (AnalyzingNode (name node)) = Some x \<longrightarrow>
          analyze_single_node e node tr = (Inl x, tr)"
    by (simp add: analyze_single_node_raises)
  have 4: "stdout e tr (AnalyzingNode (name node)) = None \<longrightarrow>
        (\<exists>st tr'. analyze_single_node e node tr = (Inr st, tr') \<and> node_name st = name node)
        \<and> (\<forall>msg tr1.
              deploy_debug_pod e (name node) tr = ((False, msg), tr1) \<longrightarrow>
              analyze_single_node e node tr =
                (Inr \<lparr>node_name = name node, containerd_configs = [],
                       gpu_failure_symptoms = None, debug_pod_deployed = False,
                       execution_error = Some msg\<rparr>, tr1))
        \<and> (\<forall>pod tr1 configs tr2 symptoms tr3.
              deploy_debug_pod e (name node) tr = ((True, pod), tr1)
              \<and> get_containerd_config_from_node e (name node) pod tr1 = (configs, tr2)
              \<and> run_gpu_detection_on_node e (name node) pod tr2 = (symptoms, tr3) \<longrightarrow>
              analyze_single_node e node tr =
                (Inr \<lparr>node_name = name node, containerd_configs = configs,
                       gpu_failure_symptoms = Some symptoms, debug_pod_deployed = True,
                       execution_error = None\<rparr>, tr3))"
  proof (intro impI conjI allI)
    assume pr: "stdout e tr (AnalyzingNode (name node)) = None"
    show "\<exists>st tr'. analyze_single_node e node tr = (Inr st, tr') \<and> node_name st = name node"
      by (rule analyze_single_node_returns [OF pr])
    fix msg tr1
    assume "deploy_debug_pod e (name node) tr = ((False, msg), tr1)"
    with pr show "analyze_single_node e node tr =
                (Inr \<lparr>node_name = name node, containerd_configs = [],
                       gpu_failure_symptoms = None, debug_pod_deployed = False,
                       execution_error = Some msg\<rparr>, tr1)"
      by (rule analyze_single_node_failed_provisioning)
  next
    fix pod tr1 configs tr2 symptoms tr3
    assume pr: "stdout e tr (AnalyzingNode (name node)) = None"
      and "deploy_debug_pod e (name node) tr = ((True, pod), tr1)
           \<and> get_containerd_config_from_node e (name node) pod tr1 = (configs, tr2)
           \<and> run_gpu_detection_on_node e (name node) pod tr2 = (symptoms, tr3)"
    then show "analyze_single_node e node tr =
                (Inr \<lparr>node_name = name node, containerd_configs = configs,
                       gpu_failure_symptoms = Some symptoms, debug_pod_deployed = True,
                       execution_error = None\<rparr>, tr3)"
      by (simp add: analyze_single_node_provisioned)
  qed
  show ?thesis by (rule conjI [OF 1 conjI [OF 2 conjI [OF 3 4]]])
qed

text \<open>
  With a standard output that takes the message: provisioning that fails (no kubectl);
  config discovery that raises; a probe that raises after config discovery returned; and
  the analyzer's own steps on a node whose pod becomes ready and has no config file.
\<close>

theorem analyze_single_node_witness:
  "stdout broken_env [] (AnalyzingNode (name node_a)) = None
   \<and> analyze_single_node broken_env node_a [] =
     (Inr \<lparr>node_name = ''node-a'', containerd_configs = [], gpu_failure_symptoms = None,
           debug_pod_deployed = False,
           execution_error = Some ''Exception deploying pod: No such file or directory: kubectl''\<rparr>,
      [Call (GetPod ''gpu-debug-node-a'') (Raised (OtherException ''No such file or directory: kubectl''))])
   \<and> fst (analyze_single_node_with (py_print quiet_env) (deploy_debug_pod quiet_env)
             raising_config_step raising_detection_step node_a []) =
     Inr \<lparr>node_name = ''node-a'', containerd_configs = [], gpu_failure_symptoms = None,
           debug_pod_deployed = True,
           execution_error = Some ''Analysis failed: connection reset''\<rparr>
   \<and> fst (analyze_single_node_with (py_print quiet_env) (deploy_debug_pod quiet_env)
             empty_config_step raising_detection_step node_a []) =
     Inr \<lparr>node_name = ''node-a'', containerd_configs = [], gpu_failure_symptoms = None,
           debug_pod_deployed = True,
           execution_error = Some ''Analysis failed: broken pipe''\<rparr>
   \<and> fst (analyze_single_node two_node_env node_a []) =
     Inr \<lparr>node_name = ''node-a'',
           containerd_configs = map (absent_config_record ''node-a'') remote_config_paths,
           gpu_failure_symptoms = Some [], debug_pod_deployed = True,
           execution_error = None\<rparr>"
proof -
  have n: "name node_a = ''node-a''" by (simp add: node_a_def)
  have p1: "stdout broken_env [] (AnalyzingNode (name node_a)) = None"
    by (simp add: broken_env_def)
  have p2: "py_print quiet_env (AnalyzingNode (name node_a)) [] = None"
    by (simp add: py_print_def quiet_env_def)
  have p3: "stdout two_node_env [] (AnalyzingNode (name node_a)) = None"
    by (simp add: two_node_env_def)
  have d1: "deploy_debug_pod broken_env (name node_a) [] =
      ((False, ''Exception deploying pod: No such file or directory: kubectl''),
       [Call (GetPod ''gpu-debug-node-a'') (Raised (OtherException ''No such file or directory: kubectl''))])"
    by (simp add: deploy_debug_pod_def subprocess_run_def broken_env_def node_a_def
        deploy_pod_name_def debug_pod_prefix_def replace_char_def Let_def)
  have d2: "deploy_debug_pod quiet_env (name node_a) [] =
      ((True, ''gpu-debug-node-a''), [Call (GetPod ''gpu-debug-node-a'') (Completed 0 [] [])])"
    by (simp add: deploy_debug_pod_def subprocess_run_def quiet_env_def node_a_def
        deploy_pod_name_def debug_pod_prefix_def replace_char_def Let_def)
  have k: "kubectl two_node_env h (GetPod p) = Completed 1 [] ''NotFound''"
    "kubectl two_node_env h (ApplyPod s) = Completed 0 [] []"
    "kubectl two_node_env h (GetPhase p) = Completed 0 ''Running'' []"
    "kubectl two_node_env h (GetReady p) = Completed 0 ''true'' []"
    "kubectl two_node_env h (ExecTestF p path) = Completed 1 [] []"
    "kubectl two_node_env h (ExecDetection p) = Completed 0 [] []" for h p s path
    by (simp_all add: two_node_env_def)
  have "poll_ready two_node_env p (Suc m) t =
      (Inr True, t @ [Call (GetPhase p) (Completed 0 ''Running'' []),
                      Call (GetReady p) (Completed 0 ''true'' [])])" for p t m
    by (simp add: k subprocess_run_def)
  from this [of _ 59] have poll: "poll_ready two_node_env p 60 t =
      (Inr True, t @ [Call (GetPhase p) (Completed 0 ''Running'' []),
                      Call (GetReady p) (Completed 0 ''true'' [])])" for p t
    by simp
  obtain tr1 where d3: "deploy_debug_pod two_node_env (name node_a) [] =
      ((True, ''gpu-debug-node-a''), tr1)"
    by (simp add: deploy_debug_pod_def await_ready_def poll k subprocess_run_def Let_def
        node_a_def deploy_pod_name_def debug_pod_prefix_def replace_char_def)
  obtain tr2 where c3: "get_containerd_config_from_node two_node_env (name node_a)
        ''gpu-debug-node-a'' tr1 =
      (map (absent_config_record ''node-a'') remote_config_paths, tr2)"
    by (simp add: get_containerd_config_from_node_def remote_config_paths_def
        inspect_config_path_def absent_config_record_def k subprocess_run_def Let_def n)
  obtain tr3 where g3: "run_gpu_detection_on_node two_node_env (name node_a)
        ''gpu-debug-node-a'' tr2 = ([], tr3)"
    by (simp add: run_gpu_detection_on_node_def k subprocess_run_def)
  note broken = analyze_single_node_returns_once_printed
    [of "py_print quiet_env" node_a "[]" "deploy_debug_pod quiet_env"
        raising_config_step raising_detection_step broken_env]
  note empty = analyze_single_node_returns_once_printed
    [of "py_print quiet_env" node_a "[]" "deploy_debug_pod quiet_env"
        empty_config_step raising_detection_step two_node_env]
  note own1 = broken [THEN conjunct2, THEN conjunct2, THEN conjunct2, rule_format, OF p1]
  note own3 = empty [THEN conjunct2, THEN conjunct2, THEN conjunct2, rule_format, OF p3]
  have 1: "analyze_single_node broken_env node_a [] =
     (Inr \<lparr>node_name = ''node-a'', containerd_configs = [], gpu_failure_symptoms = None,
           debug_pod_deployed = False,
           execution_error = Some ''Exception deploying pod: No such file or directory: kubectl''\<rparr>,
      [Call (GetPod ''gpu-debug-node-a'') (Raised (OtherException ''No such file or directory: kubectl''))])"
    using own1 [THEN conjunct2, THEN conjunct1, rule_format, OF d1] by (simp add: n)
  have 2: "fst (analyze_single_node_with (py_print quiet_env) (deploy_debug_pod quiet_env)
             raising_config_step raising_detection_step node_a []) =
     Inr \<lparr>node_name = ''node-a'', containerd_configs = [], gpu_failure_symptoms = None,
           debug_pod_deployed = True,
           execution_error = Some ''Analysis failed: connection reset''\<rparr>"
    using broken [THEN conjunct2, THEN conjunct1, rule_format, OF p2] d2
    by (auto simp: n raising_config_step_def)
  have 3: "fst (analyze_single_node_with (py_print quiet_env) (deploy_debug_pod quiet_env)
             empty_config_step raising_detection_step node_a []) =
     Inr \<lparr>node_name = ''node-a'', containerd_configs = [], gpu_failure_symptoms = None,
           debug_pod_deployed = True,
           execution_error = Some ''Analysis failed: broken pipe''\<rparr>"
    using empty [THEN conjunct2, THEN conjunct1, rule_format, OF p2] d2
    by (auto simp: n empty_config_step_def raising_detection_step_def)
  have 4: "fst (analyze_single_node two_node_env node_a []) =
     Inr \<lparr>node_name = ''node-a'',
           containerd_configs = map (absent_config_record ''node-a'') remote_config_paths,
           gpu_failure_symptoms = Some [], debug_pod_deployed = True,
           execution_error = None\<rparr>"
    using own3 [THEN conjunct2, THEN conjunct2, rule_format, OF conjI [OF d3 conjI [OF c3 g3]]]
    by (simp add: n)
  from p1 1 2 3 4 show ?thesis by blast
qed

subsection \<open>Collecting the results\<close>

lemma dict_set_fresh: "k \<notin> fst ` set d \<Longrightarrow> dict_set d k v = d @ [(k, v)]"
  by (induction d) auto

lemma dict_set_keys: "fst ` set (dict_set d k v) = insert k (fst ` set d)"
proof (induction d)
  case Nil
  then show ?case by simp
next
  case (Cons p d)
  obtain k' v' where p: "p = (k', v')" by (cases p)
  show ?case
  proof (cases "k' = k")
    case True
    with p show ?thesis by simp
  next
    case False
    with p Cons.IH show ?thesis by auto
  qed
qed

lemma dict_set_distinct: "distinct (map fst d) \<Longrightarrow> distinct (map fst (dict_set d k v))"
proof (induction d)
  case Nil
  then show ?case by simp
next
  case (Cons p d)
  obtain k' v' where p: "p = (k', v')" by (cases p)
  from Cons.prems p have "k' \<notin> fst ` set d" and "distinct (map fst d)" by auto
  with Cons.IH p show ?case by (auto simp: dict_set_keys)
qed

lemma dict_set_entries: "set (dict_set d k v) \<subseteq> insert (k, v) (set d)"
proof (induction d)
  case Nil
  then show ?case by simp
next
  case (Cons p d)
  obtain k' v' where p: "p = (k', v')" by (cases p)
  show ?case
  proof (cases "k' = k")
    case True
    with p show ?thesis by auto
  next
    case False
    with p Cons.IH show ?thesis by auto
  qed
qed

lemma as_completed_Nil: "as_completed ks [] = []"
  by (cases ks) simp_all

lemma mset_as_completed: "mset (as_completed ks fs) = mset fs"
proof (induction ks arbitrary: fs)
  case Nil
  then show ?case by simp
next
  case (Cons k ks)
  show ?case
  proof (cases "fs = []")
    case True
    then show ?thesis by simp
  next
    case False
    let ?i = "k mod length fs"
    from False have i: "?i < length fs" by simp
    have "mset fs = mset (take ?i fs @ fs ! ?i # drop (Suc ?i) fs)"
      using id_take_nth_drop [OF i] by simp
    then have "mset fs = add_mset (fs ! ?i) (mset (take ?i fs @ drop (Suc ?i) fs))"
      by simp
    with False Cons.IH [of "take ?i fs @ drop (Suc ?i) fs"] show ?thesis
      by (simp add: Let_def)
  qed
qed

lemma set_as_completed: "set (as_completed ks fs) = set fs"
  using mset_as_completed [of ks fs] by (rule mset_eq_setD)

lemma run_pool_length: "length (fst (run_pool worker nodes tr)) = length nodes"
proof (induction nodes arbitrary: tr)
  case Nil
  then show ?case by simp
next
  case (Cons n ns)
  obtain f tr1 where w: "worker n tr = (f, tr1)" by (cases "worker n tr")
  obtain fs tr2 where r: "run_pool worker ns tr1 = (fs, tr2)" by (cases "run_pool worker ns tr1")
  from Cons.IH [of tr1] r have "length fs = length ns" by simp
  with w r show ?case by simp
qed

lemma collect_results_fresh:
  assumes "distinct (map (\<lambda>c. name (fst c)) cs)"
    and "(\<lambda>c. name (fst c)) ` set cs \<inter> fst ` set acc = {}"
  shows "collect_results cs None acc =
         Inr (acc @ map (\<lambda>c. (name (fst c), recorded_outcome (fst c) (snd c))) cs)"
  using assms
proof (induction cs arbitrary: acc)
  case Nil
  then show ?case by simp
next
  case (Cons c cs)
  obtain node future where c: "c = (node, future)" by (cases c)
  let ?acc = "acc @ [(name node, recorded_outcome node future)]"
  from Cons.prems(2) c have fresh: "name node \<notin> fst ` set acc" by auto
  have step: "collect_results (c # cs) None acc = collect_results cs None ?acc"
    using fresh by (simp add: c recorded_outcome_def dict_set_fresh split: sum.splits)
  have "distinct (map (\<lambda>c. name (fst c)) cs)" using Cons.prems(1) by simp
  moreover have "(\<lambda>c. name (fst c)) ` set cs \<inter> fst ` set ?acc = {}"
    using Cons.prems c by auto
  ultimately have "collect_results cs None ?acc =
      Inr (?acc @ map (\<lambda>c. (name (fst c), recorded_outcome (fst c) (snd c))) cs)"
    by (rule Cons.IH)
  with step show ?case by (simp add: c)
qed

lemma collect_results_entries:
  assumes "distinct (map fst acc)"
  shows "\<exists>results. collect_results cs None acc = Inr results
           \<and> distinct (map fst results)
           \<and> fst ` set results = fst ` set acc \<union> (\<lambda>c. name (fst c)) ` set cs
           \<and> set results \<subseteq> set acc \<union> (\<lambda>c. (name (fst c), recorded_outcome (fst c) (snd c))) ` set cs"
  using assms
proof (induction cs arbitrary: acc)
  case Nil
  then show ?case by simp
next
  case (Cons c cs)
  obtain node future where c: "c = (node, future)" by (cases c)
  let ?acc = "dict_set acc (name node) (recorded_outcome node future)"
  have step: "collect_results (c # cs) None acc = collect_results cs None ?acc"
    by (simp add: c recorded_outcome_def split: sum.splits)
  have "distinct (map fst ?acc)" using Cons.prems by (rule dict_set_distinct)
  from Cons.IH [OF this] obtain results where
    r: "collect_results cs None ?acc = Inr results" "distinct (map fst results)"
      "fst ` set results = fst ` set ?acc \<union> (\<lambda>c. name (fst c)) ` set cs"
      "set results \<subseteq> set ?acc \<union> (\<lambda>c. (name (fst c), recorded_outcome (fst c) (snd c))) ` set cs"
    by blast
  have keys: "fst ` set results = fst ` set acc \<union> (\<lambda>c. name (fst c)) ` set (c # cs)"
    using r(3) by (simp add: dict_set_keys c)
  have entries: "set results \<subseteq>
      set acc \<union> (\<lambda>c. (name (fst c), recorded_outcome (fst c) (snd c))) ` set (c # cs)"
    using r(4) dict_set_entries [of acc "name node" "recorded_outcome node future"]
    by (auto simp: c)
  from step r(1,2) keys entries show ?case by simp
qed

text \<open>
  Claim C1: when the run is not interrupted, the orchestrator returns a mapping whose
  keys are exactly the names of the discovered nodes, each key once, for every worker
  behaviour and every order of completion. Every entry is the outcome of a node of that
  name: the status its worker returned, or, when its future raised, a status whose
  execution error is made from the exception. With \<open>N\<close> nodes of distinct names the
  mapping has \<open>N\<close> entries, and the entry of each node is the outcome of its own
  worker, so a worker that fails changes no other node's entry.
\<close>

theorem one_outcome_per_node:
  assumes nodes: "get_cluster_nodes e tr = (nodes, tr0)"
  shows "\<exists>results tr'.
           analyze_cluster_with worker e cleanup schedule None tr = (Inr results, tr')
           \<and> distinct (map fst results)
           \<and> set (map fst results) = set (map name nodes)
           \<and> (\<forall>entry \<in> set results. \<exists>i < length nodes.
                 entry = (name (nodes ! i),
                          recorded_outcome (nodes ! i) (fst (run_pool worker nodes tr0) ! i)))
           \<and> (distinct (map name nodes) \<longrightarrow>
                 length results = length nodes
                 \<and> (\<forall>i < length nodes.
                       map_of results (name (nodes ! i)) =
                         Some (recorded_outcome (nodes ! i) (fst (run_pool worker nodes tr0) ! i))))"
proof -
  obtain futures tr1 where pool: "run_pool worker nodes tr0 = (futures, tr1)"
    by (cases "run_pool worker nodes tr0")
  have len: "length futures = length nodes"
    using run_pool_length [of worker nodes tr0] pool by simp
  let ?done = "as_completed schedule (zip nodes futures)"
  let ?entry = "\<lambda>c. (name (fst c), recorded_outcome (fst c) (snd c))"
  let ?tr' = "if nodes = [] then tr0 else if cleanup then cleanup_debug_pods e nodes tr1 else tr1"
  from collect_results_entries [of "[]" ?done] obtain results where
    r: "collect_results ?done None [] = Inr results" "distinct (map fst results)"
      "fst ` set results = (\<lambda>c. name (fst c)) ` set ?done"
      "set results \<subseteq> ?entry ` set ?done"
    by auto
  have done_set: "set ?done = set (zip nodes futures)" by (rule set_as_completed)
  have run: "analyze_cluster_with worker e cleanup schedule None tr = (Inr results, ?tr')"
  proof (cases "nodes = []")
    case True
    with r(1) have "results = []" by (simp add: as_completed_Nil)
    with True nodes show ?thesis by (simp add: analyze_cluster_with_def)
  next
    case False
    with nodes pool r(1) show ?thesis by (simp add: analyze_cluster_with_def)
  qed
  have "(\<lambda>c. name (fst c)) ` set (zip nodes futures) = name ` set nodes"
  proof -
    have "fst ` set (zip nodes futures) = set nodes"
      using len by (metis map_fst_zip set_map)
    then show ?thesis by (metis image_image)
  qed
  with r(3) done_set have keys: "set (map fst results) = set (map name nodes)" by simp
  have entries: "\<exists>i < length nodes.
      entry = (name (nodes ! i), recorded_outcome (nodes ! i) (futures ! i))"
    if "entry \<in> set results" for entry
  proof -
    from that r(4) done_set obtain c where c: "c \<in> set (zip nodes futures)" "entry = ?entry c"
      by auto
    from c(1) obtain i where "i < length nodes" "c = (nodes ! i, futures ! i)"
      using len by (auto simp: in_set_zip)
    with c(2) show ?thesis by auto
  qed
  have counted: "length results = length nodes
      \<and> (\<forall>i < length nodes. map_of results (name (nodes ! i)) =
            Some (recorded_outcome (nodes ! i) (futures ! i)))"
    if names: "distinct (map name nodes)"
  proof -
    have "map name (map fst (zip nodes futures)) = map name nodes" using len by simp
    then have zip_names: "map (\<lambda>c. name (fst c)) (zip nodes futures) = map name nodes"
      by (simp add: comp_def)
    have "mset (map (\<lambda>c. name (fst c)) ?done) =
          mset (map (\<lambda>c. name (fst c)) (zip nodes futures))"
      by (simp add: mset_as_completed)
    with zip_names have "mset (map (\<lambda>c. name (fst c)) ?done) = mset (map name nodes)" by simp
    with names have dist: "distinct (map (\<lambda>c. name (fst c)) ?done)"
      using mset_eq_imp_distinct_iff by blast
    have "collect_results ?done None [] = Inr (map ?entry ?done)"
      using collect_results_fresh [OF dist, of "[]"] by simp
    with r(1) have results: "results = map ?entry ?done" by simp
    have "length ?done = length (zip nodes futures)"
      using mset_as_completed mset_eq_length by blast
    with len results have l: "length results = length nodes" by simp
    have "map_of results (name (nodes ! i)) = Some (recorded_outcome (nodes ! i) (futures ! i))"
      if i: "i < length nodes" for i
    proof -
      have "(nodes ! i, futures ! i) \<in> set (zip nodes futures)"
        using i len by (auto simp: in_set_zip)
      with done_set have "?entry (nodes ! i, futures ! i) \<in> ?entry ` set ?done" by blast
      then have "(name (nodes ! i), recorded_outcome (nodes ! i) (futures ! i)) \<in> set results"
        by (simp add: results)
      with r(2) show ?thesis by (rule map_of_is_SomeI)
    qed
    with l show ?thesis by blast
  qed
  have B: "\<forall>entry \<in> set results. \<exists>i < length nodes.
      entry = (name (nodes ! i),
               recorded_outcome (nodes ! i) (fst (run_pool worker nodes tr0) ! i))"
    using entries pool by simp
  have C: "distinct (map name nodes) \<longrightarrow>
      length results = length nodes
      \<and> (\<forall>i < length nodes.
            map_of results (name (nodes ! i)) =
              Some (recorded_outcome (nodes ! i) (fst (run_pool worker nodes tr0) ! i)))"
    using counted pool by simp
  from run r(2) keys B C show ?thesis by (intro exI conjI)
qed

lemma two_nodes: "get_cluster_nodes two_node_env [] =
    ([node_a, node_b], [Call GetNodes (Completed 0 [] [])])"
  by (simp add: get_cluster_nodes_def subprocess_run_def two_node_env_def)

text \<open>
  Two nodes, the second completing first; the worker of \<^verbatim>\<open>node-a\<close> raises.
\<close>

theorem one_outcome_per_node_witness:
  "\<exists>results tr'.
     analyze_cluster_with flaky_worker two_node_env True [1] None [] = (Inr results, tr')
     \<and> length results = 2
     \<and> map_of results ''node-a'' =
         Some \<lparr>node_name = ''node-a'', containerd_configs = [], gpu_failure_symptoms = None,
               debug_pod_deployed = False,
               execution_error = Some ''Analysis exception: worker crashed''\<rparr>
     \<and> map_of results ''node-b.example.com'' = Some (example_status ''node-b.example.com'' [])"
proof -
  have d: "distinct (map name [node_a, node_b])" by (simp add: node_a_def node_b_def)
  from one_outcome_per_node [OF two_nodes, of flaky_worker True "[1]"]
  obtain results tr' where
    r: "analyze_cluster_with flaky_worker two_node_env True [1] None [] = (Inr results, tr')"
    and c: "distinct (map name [node_a, node_b]) \<longrightarrow>
      length results = length [node_a, node_b]
      \<and> (\<forall>i < length [node_a, node_b].
            map_of results (name ([node_a, node_b] ! i)) =
              Some (recorded_outcome ([node_a, node_b] ! i)
                     (fst (run_pool flaky_worker [node_a, node_b]
                            [Call GetNodes (Completed 0 [] [])]) ! i)))"
    by blast
  from c d have l: "length results = length [node_a, node_b]"
    and look: "\<forall>i < length [node_a, node_b].
            map_of results (name ([node_a, node_b] ! i)) =
              Some (recorded_outcome ([node_a, node_b] ! i)
                     (fst (run_pool flaky_worker [node_a, node_b]
                            [Call GetNodes (Completed 0 [] [])]) ! i))"
    by blast+
  have a: "map_of results ''node-a'' =
         Some \<lparr>node_name = ''node-a'', containerd_configs = [], gpu_failure_symptoms = None,
               debug_pod_deployed = False,
               execution_error = Some ''Analysis exception: worker crashed''\<rparr>"
    using look [rule_format, of 0]
    by (simp add: node_a_def node_b_def flaky_worker_def recorded_outcome_def)
  have b: "map_of results ''node-b.example.com'' = Some (example_status ''node-b.example.com'' [])"
    using look [rule_format, of 1]
    by (simp add: node_a_def node_b_def flaky_worker_def recorded_outcome_def)
  from r l a b show ?thesis by simp
qed

subsection \<open>Discovery\<close>

text \<open>
  Claim C7 as stated fails: when every request to the cluster is refused, listing the
  nodes fails, and the orchestrator returns the empty mapping, as it does for a cluster
  that lists no node.
\<close>

theorem discovery_failure_not_surfaced:
  "discovery_fails unreachable_env []
   \<and> analyze_cluster unreachable_env True [] None [] =
       (Inr [], [Call GetNodes (Completed 1 [] ''The connection to the server was refused'')])
   \<and> discovers_no_node quiet_env []
   \<and> fst (analyze_cluster quiet_env True [] None []) =
       fst (analyze_cluster unreachable_env True [] None [])"
  by (simp add: discovery_fails_def discovers_no_node_def unreachable_env_def quiet_env_def
      analyze_cluster_def analyze_cluster_with_def get_cluster_nodes_def subprocess_run_def)

text \<open>
  Claim C7, amended: when discovery yields no node, and also when listing the nodes
  fails, the orchestrator returns the empty mapping and no error, after the one call that
  lists the nodes; \<^verbatim>\<open>get_cluster_nodes\<close> catches the failure and returns the empty
  list, so the value returned does not tell the two cases apart.
\<close>

theorem discovery_failure_gives_empty_mapping:
  assumes "discovery_fails e tr \<or> discovers_no_node e tr"
  shows "analyze_cluster e cleanup schedule cancel tr =
         (Inr [], tr @ [Call GetNodes (kubectl e tr GetNodes)])"
  using assms
  by (auto simp: discovery_fails_def discovers_no_node_def analyze_cluster_def
      analyze_cluster_with_def get_cluster_nodes_def subprocess_run_def
      split: proc_result.splits sum.splits)

theorem discovery_failure_witness:
  "(discovery_fails unreachable_env [] \<or> discovers_no_node unreachable_env [])
   \<and> analyze_cluster unreachable_env False [] None [] =
       (Inr [], [Call GetNodes (Completed 1 [] ''The connection to the server was refused'')])
   \<and> (discovery_fails quiet_env [] \<or> discovers_no_node quiet_env [])
   \<and> analyze_cluster quiet_env False [] None [] = (Inr [], [Call GetNodes (Completed 0 [] [])])"
proof -
  have 1: "discovery_fails unreachable_env [] \<or> discovers_no_node unreachable_env []"
    by (simp add: discovery_fails_def unreachable_env_def)
  have 2: "discovery_fails quiet_env [] \<or> discovers_no_node quiet_env []"
    by (simp add: discovers_no_node_def quiet_env_def)
  from discovery_failure_gives_empty_mapping [OF 1, of False "[]" None]
    discovery_failure_gives_empty_mapping [OF 2, of False "[]" None] 1 2
  show ?thesis by (simp add: unreachable_env_def quiet_env_def)
qed

subsection \<open>The cleanup sweep\<close>

lemma cleanup_sweep:
  "\<exists>sweep. cleanup_debug_pods e nodes tr = tr @ sweep
      \<and> commands sweep = map (\<lambda>n. DeletePod (cleanup_pod_name n)) nodes"
proof (induction nodes arbitrary: tr)
  case Nil
  then show ?case by simp
next
  case (Cons n ns)
  let ?ev = "Call (DeletePod (cleanup_pod_name n)) (kubectl e tr (DeletePod (cleanup_pod_name n)))"
  from Cons.IH [of "tr @ [?ev]"] obtain sweep where
    sw: "cleanup_debug_pods e ns (tr @ [?ev]) = (tr @ [?ev]) @ sweep"
      "commands sweep = map (\<lambda>n. DeletePod (cleanup_pod_name n)) ns" by blast
  have "cleanup_debug_pods e (n # ns) tr = cleanup_debug_pods e ns (tr @ [?ev])"
    by (cases "kubectl e tr (DeletePod (cleanup_pod_name n))") (simp_all add: subprocess_run_def)
  with sw(1) have "cleanup_debug_pods e (n # ns) tr = tr @ (?ev # sweep)" by simp
  moreover have "commands (?ev # sweep) = map (\<lambda>n. DeletePod (cleanup_pod_name n)) (n # ns)"
    using sw(2) by simp
  ultimately show ?case by blast
qed

lemma cleanup_effective:
  assumes "\<forall>h. \<forall>n \<in> set nodes. \<exists>out err.
             kubectl e h (DeletePod (cleanup_pod_name n)) = Completed 0 out err"
  shows "cluster_pods (cleanup_debug_pods e nodes tr) pods =
         cluster_pods tr pods - cleanup_pod_name ` set nodes"
  using assms
proof (induction nodes arbitrary: tr)
  case Nil
  then show ?case by simp
next
  case (Cons n ns)
  from Cons.prems have "\<exists>out err. kubectl e tr (DeletePod (cleanup_pod_name n)) = Completed 0 out err"
    by simp
  then obtain out err where
    r: "kubectl e tr (DeletePod (cleanup_pod_name n)) = Completed 0 out err" by blast
  let ?tr1 = "tr @ [Call (DeletePod (cleanup_pod_name n)) (Completed 0 out err)]"
  have step: "cleanup_debug_pods e (n # ns) tr = cleanup_debug_pods e ns ?tr1"
    using r by (simp add: subprocess_run_def)
  have "cluster_pods ?tr1 pods = cluster_pods tr pods - {cleanup_pod_name n}"
    by (simp add: cluster_pods_def)
  moreover have "cluster_pods (cleanup_debug_pods e ns ?tr1) pods =
      cluster_pods ?tr1 pods - cleanup_pod_name ` set ns"
    using Cons.prems by (intro Cons.IH) auto
  ultimately show ?case using step by auto
qed

lemma cleanup_nothing_to_delete:
  assumes "cleanup_pod_name ` set nodes \<inter> cluster_pods tr pods = {}"
  shows "cluster_pods (cleanup_debug_pods e nodes tr) pods = cluster_pods tr pods"
  using assms
proof (induction nodes arbitrary: tr)
  case Nil
  then show ?case by simp
next
  case (Cons n ns)
  let ?r = "kubectl e tr (DeletePod (cleanup_pod_name n))"
  let ?tr1 = "tr @ [Call (DeletePod (cleanup_pod_name n)) ?r]"
  have step: "cleanup_debug_pods e (n # ns) tr = cleanup_debug_pods e ns ?tr1"
    by (cases ?r) (simp_all add: subprocess_run_def)
  from Cons.prems have "cleanup_pod_name n \<notin> cluster_pods tr pods" by auto
  then have same: "cluster_pods ?tr1 pods = cluster_pods tr pods"
    by (cases ?r) (auto simp: cluster_pods_def)
  with Cons.prems have "cleanup_pod_name ` set ns \<inter> cluster_pods ?tr1 pods = {}" by auto
  then have "cluster_pods (cleanup_debug_pods e ns ?tr1) pods = cluster_pods ?tr1 pods"
    by (rule Cons.IH)
  with step same show ?case by simp
qed

lemma run_pool_extends:
  "extends (\<lambda>ev. \<exists>n \<in> set nodes. concerns (deploy_pod_name (name n)) ev) tr
     (snd (run_pool (analyze_single_node e) nodes tr))"
proof (induction nodes arbitrary: tr)
  case Nil
  then show ?case by (simp add: extends_refl)
next
  case (Cons n ns)
  let ?Q = "\<lambda>ev. \<exists>m \<in> set (n # ns). concerns (deploy_pod_name (name m)) ev"
  obtain f tr1 where w: "analyze_single_node e n tr = (f, tr1)"
    by (cases "analyze_single_node e n tr")
  obtain fs tr2 where r: "run_pool (analyze_single_node e) ns tr1 = (fs, tr2)"
    by (cases "run_pool (analyze_single_node e) ns tr1")
  from w analyze_single_node_extends [of n tr e]
  have "extends (concerns (deploy_pod_name (name n))) tr tr1" by simp
  then have 1: "extends ?Q tr tr1" by (rule extends_mono) auto
  from r Cons.IH [of tr1]
  have "extends (\<lambda>ev. \<exists>m \<in> set ns. concerns (deploy_pod_name (name m)) ev) tr1 tr2" by simp
  then have 2: "extends ?Q tr1 tr2" by (rule extends_mono) auto
  from 1 2 have "extends ?Q tr tr2" by (rule extends_trans)
  with w r show ?case by simp
qed

lemma get_cluster_nodes_trace:
  "snd (get_cluster_nodes e tr) = tr @ [Call GetNodes (kubectl e tr GetNodes)]"
  by (simp add: get_cluster_nodes_def subprocess_run_def split: proc_result.splits sum.splits)

lemma analyze_cluster_trace:
  assumes "get_cluster_nodes e tr = (nodes, tr0)"
  shows "snd (analyze_cluster_with worker e cleanup schedule cancel tr) =
         (if cleanup then cleanup_debug_pods e nodes (snd (run_pool worker nodes tr0))
          else snd (run_pool worker nodes tr0))"
  using assms by (cases "nodes = []") (auto simp: analyze_cluster_with_def split: prod.splits)

text \<open>
  Claim C3: with \<^verbatim>\<open>cleanup=True\<close>, the run ends with a sweep that comes after
  every event of the workers and issues one deletion per discovered node, in order, for
  the pod of the node's derived name, whether the collecting loop finished or the
  caller's interrupt left it, and whatever the workers and the deletions answer. When the
  deletions succeed, no inspection pod of a discovered node is left in the cluster: the
  pods after the run are among those before it. With \<^verbatim>\<open>cleanup=False\<close> the run
  issues no deletion at all.
\<close>

theorem cleanup_sweep_on_every_exit:
  assumes nodes: "get_cluster_nodes e tr = (nodes, tr0)"
  shows "(\<exists>sweep. snd (analyze_cluster e True schedule cancel tr) =
                    snd (run_pool (analyze_single_node e) nodes tr0) @ sweep
            \<and> commands sweep = map (\<lambda>n. DeletePod (cleanup_pod_name n)) nodes)
         \<and> ((\<forall>h. \<forall>n \<in> set nodes. \<exists>out err.
                kubectl e h (DeletePod (cleanup_pod_name n)) = Completed 0 out err) \<longrightarrow>
              cluster_pods (snd (analyze_cluster e True schedule cancel tr)) pods
                \<subseteq> cluster_pods tr pods - cleanup_pod_name ` set nodes)
         \<and> (\<exists>evs. snd (analyze_cluster e False schedule cancel tr) = tr @ evs
              \<and> (\<forall>p. DeletePod p \<notin> set (commands evs)))"
proof -
  let ?tr1 = "snd (run_pool (analyze_single_node e) nodes tr0)"
  let ?Q = "\<lambda>ev. \<exists>n \<in> set nodes. concerns (deploy_pod_name (name n)) ev"
  have tr0: "tr0 = tr @ [Call GetNodes (kubectl e tr GetNodes)]"
    using nodes get_cluster_nodes_trace [of e tr] by simp
  have with_sweep: "snd (analyze_cluster e True schedule cancel tr) = cleanup_debug_pods e nodes ?tr1"
    using analyze_cluster_trace [OF nodes] by (simp add: analyze_cluster_def)
  have without: "snd (analyze_cluster e False schedule cancel tr) = ?tr1"
    using analyze_cluster_trace [OF nodes] by (simp add: analyze_cluster_def)
  from run_pool_extends [of nodes tr0 e] obtain evs where
    evs: "?tr1 = tr0 @ evs" "list_all ?Q evs" by (auto simp: extends_def)
  have part1: "\<exists>sweep. snd (analyze_cluster e True schedule cancel tr) = ?tr1 @ sweep
            \<and> commands sweep = map (\<lambda>n. DeletePod (cleanup_pod_name n)) nodes"
    using cleanup_sweep [of e nodes ?tr1] with_sweep by simp
  have part2: "cluster_pods (snd (analyze_cluster e True schedule cancel tr)) pods
                \<subseteq> cluster_pods tr pods - cleanup_pod_name ` set nodes"
    if eff: "\<forall>h. \<forall>n \<in> set nodes. \<exists>out err.
                kubectl e h (DeletePod (cleanup_pod_name n)) = Completed 0 out err"
  proof -
    have "list_all (\<lambda>ev. \<exists>p \<in> cleanup_pod_name ` set nodes. concerns p ev) evs"
      using evs(2) by (auto simp: list_all_iff deploy_cleanup_name)
    then have "fold cluster_step evs (cluster_pods tr0 pods)
        \<subseteq> cleanup_pod_name ` set nodes \<union> cluster_pods tr0 pods"
      by (rule fold_cluster_step_concerns_set)
    moreover have "cluster_pods tr0 pods = cluster_pods tr pods"
      by (simp add: tr0 cluster_pods_def)
    ultimately have "cluster_pods ?tr1 pods \<subseteq> cleanup_pod_name ` set nodes \<union> cluster_pods tr pods"
      using evs(1) by (simp add: cluster_pods_append)
    then show ?thesis
      using cleanup_effective [OF eff, of ?tr1 pods] with_sweep by auto
  qed
  have "\<forall>p. DeletePod p \<notin> set (commands evs)"
  proof -
    have "list_all ?Q xs \<Longrightarrow> DeletePod p \<notin> set (commands xs)" for xs p
      by (induction xs rule: commands.induct) auto
    with evs(2) show ?thesis by blast
  qed
  then have part3: "\<exists>evs. snd (analyze_cluster e False schedule cancel tr) = tr @ evs
              \<and> (\<forall>p. DeletePod p \<notin> set (commands evs))"
    using without evs(1) tr0
    by (intro exI [of _ "Call GetNodes (kubectl e tr GetNodes) # evs"]) simp
  from part1 part2 part3 show ?thesis by blast
qed

lemma two_node_worker_pods:
  "cluster_pods (snd (analyze_single_node two_node_env node tr)) pods =
     insert (deploy_pod_name (name node)) (cluster_pods tr pods)"
proof -
  have k: "kubectl two_node_env h (GetPod p) = Completed 1 [] ''NotFound''"
    "kubectl two_node_env h (ApplyPod s) = Completed 0 [] []"
    "kubectl two_node_env h (GetPhase p) = Completed 0 ''Running'' []"
    "kubectl two_node_env h (GetReady p) = Completed 0 ''true'' []"
    "kubectl two_node_env h (ExecTestF p path) = Completed 1 [] []"
    "kubectl two_node_env h (ExecDetection p) = Completed 0 [] []" for h p s path
    by (simp_all add: two_node_env_def)
  have pr: "py_print two_node_env m t = None" for m t
    by (simp add: py_print_def two_node_env_def)
  have "poll_ready two_node_env p (Suc n) t =
      (Inr True, t @ [Call (GetPhase p) (Completed 0 ''Running'' []),
                      Call (GetReady p) (Completed 0 ''true'' [])])" for p t n
    by (simp add: k subprocess_run_def)
  from this [of _ 59] have poll: "poll_ready two_node_env p 60 t =
      (Inr True, t @ [Call (GetPhase p) (Completed 0 ''Running'' []),
                      Call (GetReady p) (Completed 0 ''true'' [])])" for p t
    by simp
  have deploy: "deploy_debug_pod two_node_env (name node) tr =
      ((True, deploy_pod_name (name node)),
       tr @ [Call (GetPod (deploy_pod_name (name node))) (Completed 1 [] ''NotFound''),
             Call (ApplyPod (create_debug_pod_spec (name node))) (Completed 0 [] []),
             Call (GetPhase (deploy_pod_name (name node))) (Completed 0 ''Running'' []),
             Call (GetReady (deploy_pod_name (name node))) (Completed 0 ''true'' [])])"
    by (simp add: deploy_debug_pod_def await_ready_def poll k subprocess_run_def Let_def)
  show ?thesis
    by (simp add: analyze_single_node_def analyze_single_node_with_def deploy pr
        get_containerd_config_from_node_def remote_config_paths_def inspect_config_path_def
        run_gpu_detection_on_node_def k subprocess_run_def Let_def cluster_pods_def
        create_debug_pod_spec_def spec_pod_name_def deploy_pod_name_def)
qed

text \<open>
  An interrupted run on two nodes: without the sweep both inspection pods are left,
  with it none is, and the interrupt goes on to the caller.
\<close>

theorem cleanup_sweep_witness:
  "cluster_pods (snd (analyze_cluster two_node_env False [] (Some 0) [])) {} =
     {''gpu-debug-node-a'', ''gpu-debug-node-b-example-com''}
   \<and> cluster_pods (snd (analyze_cluster two_node_env True [] (Some 0) [])) {} = {}
   \<and> (\<exists>sweep. snd (analyze_cluster two_node_env True [] (Some 0) []) =
                 snd (analyze_cluster two_node_env False [] (Some 0) []) @ sweep
         \<and> commands sweep =
             [DeletePod ''gpu-debug-node-a'', DeletePod ''gpu-debug-node-b-example-com''])
   \<and> fst (analyze_cluster two_node_env True [] (Some 0) []) = Inl KeyboardInterrupt"
proof -
  have names: "cleanup_pod_name node_a = ''gpu-debug-node-a''"
    "cleanup_pod_name node_b = ''gpu-debug-node-b-example-com''"
    by (simp_all add: cleanup_pod_name_def debug_pod_prefix_def replace_char_def
        node_a_def node_b_def)
  have eff: "\<forall>h. \<forall>n \<in> set [node_a, node_b]. \<exists>out err.
      kubectl two_node_env h (DeletePod (cleanup_pod_name n)) = Completed 0 out err"
    by (simp add: two_node_env_def)
  have without: "snd (analyze_cluster two_node_env False [] (Some 0) []) =
      snd (run_pool (analyze_single_node two_node_env) [node_a, node_b]
             [Call GetNodes (Completed 0 [] [])])"
    using analyze_cluster_trace [OF two_nodes] by (simp add: analyze_cluster_def)
  have before: "cluster_pods (snd (analyze_cluster two_node_env False [] (Some 0) [])) {} =
     {''gpu-debug-node-a'', ''gpu-debug-node-b-example-com''}"
  proof -
    have "cluster_pods [Call GetNodes (Completed 0 [] [])] {} = {}"
      by (simp add: cluster_pods_def)
    then show ?thesis
      unfolding without
      by (simp add: two_node_worker_pods split_beta deploy_cleanup_name names insert_commute)
  qed
  note th = cleanup_sweep_on_every_exit [OF two_nodes, of "[]" "Some 0" "{}"]
  from th have sweep: "\<exists>sweep. snd (analyze_cluster two_node_env True [] (Some 0) []) =
                    snd (run_pool (analyze_single_node two_node_env) [node_a, node_b]
                           [Call GetNodes (Completed 0 [] [])]) @ sweep
            \<and> commands sweep = map (\<lambda>n. DeletePod (cleanup_pod_name n)) [node_a, node_b]"
    by (rule conjunct1)
  from th have "(\<forall>h. \<forall>n \<in> set [node_a, node_b]. \<exists>out err.
                kubectl two_node_env h (DeletePod (cleanup_pod_name n)) = Completed 0 out err) \<longrightarrow>
              cluster_pods (snd (analyze_cluster two_node_env True [] (Some 0) [])) {}
                \<subseteq> cluster_pods [] {} - cleanup_pod_name ` set [node_a, node_b]"
    by (rule conjunct1 [OF conjunct2])
  with eff have "cluster_pods (snd (analyze_cluster two_node_env True [] (Some 0) [])) {}
                \<subseteq> cluster_pods [] {} - cleanup_pod_name ` set [node_a, node_b]"
    by blast
  then have after: "cluster_pods (snd (analyze_cluster two_node_env True [] (Some 0) [])) {} = {}"
    by (simp add: cluster_pods_def)
  have cancelled: "fst (analyze_cluster two_node_env True [] (Some 0) []) = Inl KeyboardInterrupt"
    by (simp add: analyze_cluster_def analyze_cluster_with_def two_nodes split_beta)
  from before after sweep cancelled show ?thesis by (simp add: without names)
qed

subsection \<open>Idempotence\<close>

text \<open>
  Claim C9: if the pod of the derived name is found, provisioning returns success and
  the pod's name after that one call, creates nothing and leaves the cluster's pods as
  they are. Tearing down twice issues the same deletions twice, whatever each deletion
  answers or raises; once the pods are gone, the second teardown changes nothing.
\<close>

theorem provision_and_teardown_idempotent:
  "(\<forall>out err. kubectl e tr (GetPod (deploy_pod_name nodename)) = Completed 0 out err \<longrightarrow>
      deploy_debug_pod e nodename tr =
        ((True, deploy_pod_name nodename),
         tr @ [Call (GetPod (deploy_pod_name nodename)) (Completed 0 out err)])
      \<and> cluster_pods (snd (deploy_debug_pod e nodename tr)) pods = cluster_pods tr pods)
   \<and> (\<exists>sweep1 sweep2.
         cleanup_debug_pods e nodes (cleanup_debug_pods e nodes tr) = tr @ sweep1 @ sweep2
         \<and> commands sweep1 = map (\<lambda>n. DeletePod (cleanup_pod_name n)) nodes
         \<and> commands sweep2 = map (\<lambda>n. DeletePod (cleanup_pod_name n)) nodes
         \<and> (cleanup_pod_name ` set nodes \<inter> cluster_pods (tr @ sweep1) pods = {} \<longrightarrow>
              cluster_pods (tr @ sweep1 @ sweep2) pods = cluster_pods (tr @ sweep1) pods))"
proof -
  have provision: "deploy_debug_pod e nodename tr =
        ((True, deploy_pod_name nodename),
         tr @ [Call (GetPod (deploy_pod_name nodename)) (Completed 0 out err)])
      \<and> cluster_pods (snd (deploy_debug_pod e nodename tr)) pods = cluster_pods tr pods"
    if "kubectl e tr (GetPod (deploy_pod_name nodename)) = Completed 0 out err" for out err
    using that by (simp add: deploy_debug_pod_def subprocess_run_def cluster_pods_def Let_def)
  from cleanup_sweep [of e nodes tr] obtain sweep1 where
    s1: "cleanup_debug_pods e nodes tr = tr @ sweep1"
      "commands sweep1 = map (\<lambda>n. DeletePod (cleanup_pod_name n)) nodes" by blast
  from cleanup_sweep [of e nodes "tr @ sweep1"] obtain sweep2 where
    s2: "cleanup_debug_pods e nodes (tr @ sweep1) = (tr @ sweep1) @ sweep2"
      "commands sweep2 = map (\<lambda>n. DeletePod (cleanup_pod_name n)) nodes" by blast
  have same: "cluster_pods (tr @ sweep1 @ sweep2) pods = cluster_pods (tr @ sweep1) pods"
    if "cleanup_pod_name ` set nodes \<inter> cluster_pods (tr @ sweep1) pods = {}"
    using cleanup_nothing_to_delete [OF that, of e] s2(1) by simp
  have "cleanup_debug_pods e nodes (cleanup_debug_pods e nodes tr) = tr @ sweep1 @ sweep2"
    using s1(1) s2(1) by simp
  with s1(2) s2(2) same provision show ?thesis by blast
qed

text \<open>
  A pod that exists already; two teardowns without kubectl; two teardowns of one pod.
\<close>

theorem provision_and_teardown_witness:
  "deploy_debug_pod quiet_env ''node-a'' [] =
     ((True, ''gpu-debug-node-a''), [Call (GetPod ''gpu-debug-node-a'') (Completed 0 [] [])])
   \<and> commands (cleanup_debug_pods broken_env [node_a] (cleanup_debug_pods broken_env [node_a] [])) =
       [DeletePod ''gpu-debug-node-a'', DeletePod ''gpu-debug-node-a'']
   \<and> cluster_pods (cleanup_debug_pods quiet_env [node_a] (cleanup_debug_pods quiet_env [node_a] []))
        {''gpu-debug-node-a''} = {}"
proof -
  have name_a: "deploy_pod_name ''node-a'' = ''gpu-debug-node-a''"
    "cleanup_pod_name node_a = ''gpu-debug-node-a''"
    by (simp_all add: deploy_pod_name_def cleanup_pod_name_def debug_pod_prefix_def
        replace_char_def node_a_def)
  have found: "kubectl quiet_env [] (GetPod (deploy_pod_name ''node-a'')) = Completed 0 [] []"
    by (simp add: quiet_env_def)
  from provision_and_teardown_idempotent [of quiet_env "[]" "''node-a''" "{}" "[node_a]"] found
  have 1: "deploy_debug_pod quiet_env ''node-a'' [] =
     ((True, ''gpu-debug-node-a''), [Call (GetPod ''gpu-debug-node-a'') (Completed 0 [] [])])"
    by (simp add: name_a)
  from provision_and_teardown_idempotent [of broken_env "[]" "''node-a''" "{}" "[node_a]"]
  obtain sweep1 sweep2 where
    "cleanup_debug_pods broken_env [node_a] (cleanup_debug_pods broken_env [node_a] []) =
       [] @ sweep1 @ sweep2"
    "commands sweep1 = map (\<lambda>n. DeletePod (cleanup_pod_name n)) [node_a]"
    "commands sweep2 = map (\<lambda>n. DeletePod (cleanup_pod_name n)) [node_a]"
    by blast
  then have 2: "commands (cleanup_debug_pods broken_env [node_a]
                  (cleanup_debug_pods broken_env [node_a] [])) =
       [DeletePod ''gpu-debug-node-a'', DeletePod ''gpu-debug-node-a'']"
    by (simp add: commands_append name_a)
  from provision_and_teardown_idempotent
    [of quiet_env "[]" "''node-a''" "{''gpu-debug-node-a''}" "[node_a]"]
  obtain s1 s2 where
    s: "cleanup_debug_pods quiet_env [node_a] (cleanup_debug_pods quiet_env [node_a] []) =
       [] @ s1 @ s2"
    "cleanup_pod_name ` set [node_a] \<inter> cluster_pods ([] @ s1) {''gpu-debug-node-a''} = {} \<longrightarrow>
       cluster_pods ([] @ s1 @ s2) {''gpu-debug-node-a''} = cluster_pods ([] @ s1) {''gpu-debug-node-a''}"
    by blast
  have first: "cleanup_debug_pods quiet_env [node_a] [] =
      [Call (DeletePod ''gpu-debug-node-a'') (Completed 0 [] [])]"
    by (simp add: subprocess_run_def quiet_env_def name_a)
  have 3: "cluster_pods (cleanup_debug_pods quiet_env [node_a]
              (cleanup_debug_pods quiet_env [node_a] [])) {''gpu-debug-node-a''} = {}"
    by (simp add: first subprocess_run_def quiet_env_def name_a cluster_pods_def)
  from 1 2 3 show ?thesis by blast
qed


end
